theory Spec2Isabelle
  imports Complex_Main "HOL-Library.Word" "HOL-Library.Sublist"
begin

section \<open>Conventions of the embedding\<close>

text \<open>
  The development embeds three parts of the repository: the seeded scene generator
  (\<^verbatim>\<open>hashFloat\<close>, \<^verbatim>\<open>hashInt\<close>, \<^verbatim>\<open>walletToParams\<close>), the particle simulation
  (\<^verbatim>\<open>ParticleSystem\<close>) and the live feed (\<^verbatim>\<open>HeliusLiveFeed\<close>).

  \<^item> A JavaScript string is a sequence of 16-bit code units: \<open>jsstring\<close>. A literal of
    the source is written \<open>js ''...''\<close>.
  \<^item> A JavaScript number is a \<open>real\<close> (an \<open>int\<close> where the source only ever holds an
    integer there). The 32-bit wrap-around of \<^verbatim>\<open>Math.imul\<close> and \<^verbatim>\<open>| 0\<close> is modelled,
    and so is the rounding of doubles where the result of the code depends on it: in
    the magnitudes of the classifier and in the distances that the generator sorts by.
  \<^item> \<^verbatim>\<open>Math.random()\<close> and \<^verbatim>\<open>Date.now()\<close> are inputs: every operation takes the
    sequence \<open>rnd\<close> of the draws it will make (\<open>rnd 0\<close> is its first draw) and the
    sequence \<open>clock\<close> of the times it will read.
  \<^item> A thrown exception is a value of type \<open>error\<close>.
\<close>

type_synonym jsstring = "16 word list"

definition js :: "string \<Rightarrow> jsstring" where
  "js s = map of_char s"

datatype error = TypeError | SyntaxError | InvalidStateError

text \<open>The runtime of one call: the random draws and the clock readings it will see.\<close>

record runtime =
  random :: "nat \<Rightarrow> real"
  now :: "nat \<Rightarrow> real"

section \<open>Doubles\<close>

text \<open>
  Rounding to the nearest integer, a tie going to the even one.
\<close>

definition rne :: "real \<Rightarrow> int" where
  "rne q =
    (let f = \<lfloor>q\<rfloor>; d = q - real_of_int f
     in if d < 1 / 2 then f else if 1 / 2 < d then f + 1
        else if even f then f else f + 1)"

text \<open>
  The binary exponent of a number other than zero, which is at least \<open>-1022\<close> (below
  that the doubles are subnormal), and the distance between the doubles around it: a
  double has 53 significant bits.
\<close>

definition expo :: "real \<Rightarrow> int" where
  "expo v = max \<lfloor>log 2 \<bar>v\<bar>\<rfloor> (- 1022)"

definition ulp :: "real \<Rightarrow> real" where
  "ulp v = 2 powi (expo v - 52)"

text \<open>
  The double nearest to a real number, a tie going to the even significand: the value of
  a numeric literal, and of an arithmetic operation applied to the exact result. The
  numbers that occur stay far below \<open>2^1024\<close>, where a double overflows.
\<close>

definition toDouble :: "real \<Rightarrow> real" where
  "toDouble v = (if v = 0 then 0 else real_of_int (rne (v / ulp v)) * ulp v)"

text \<open>The operators \<^verbatim>\<open>+\<close>, \<^verbatim>\<open>-\<close> and \<^verbatim>\<open>*\<close> on doubles.\<close>

definition addD :: "real \<Rightarrow> real \<Rightarrow> real" where
  "addD a b = toDouble (a + b)"

definition subD :: "real \<Rightarrow> real \<Rightarrow> real" where
  "subD a b = toDouble (a - b)"

definition mulD :: "real \<Rightarrow> real \<Rightarrow> real" where
  "mulD a b = toDouble (a * b)"

section \<open>SeededHash: \<^verbatim>\<open>hashFloat\<close> and \<^verbatim>\<open>hashInt\<close>\<close>

text \<open>\<^verbatim>\<open>ToInt32\<close>, the effect of \<^verbatim>\<open>| 0\<close>: reduce modulo \<open>2^32\<close> and read as signed.\<close>

definition toInt32 :: "int \<Rightarrow> int" where
  "toInt32 n = sint (word_of_int n :: 32 word)"

text \<open>\<^verbatim>\<open>Math.imul(a, b)\<close>: the 32-bit product of the two operands, signed.\<close>

definition imul :: "int \<Rightarrow> int \<Rightarrow> int" where
  "imul a b = toInt32 (toInt32 a * toInt32 b)"

text \<open>
  The loop of \<^verbatim>\<open>hashFloat\<close>:
  \<^verbatim>\<open>h = Math.imul(31, h) + str.charCodeAt(i) | 0\<close>, over the code units of the string.
\<close>

fun hashLoop :: "int \<Rightarrow> jsstring \<Rightarrow> int" where
  "hashLoop h [] = h"
| "hashLoop h (c # cs) = hashLoop (toInt32 (imul 31 h + uint c)) cs"

text \<open>\<^verbatim>\<open>Math.abs(h) % 100000\<close>, the integer that \<^verbatim>\<open>hashFloat\<close> then divides.\<close>

definition hashBucket :: "jsstring \<Rightarrow> int \<Rightarrow> int" where
  "hashBucket str seed = \<bar>hashLoop seed str\<bar> mod 100000"

definition hashFloat :: "jsstring \<Rightarrow> int \<Rightarrow> real" where
  "hashFloat str seed = real_of_int (hashBucket str seed) / 100000"

definition hashInt :: "jsstring \<Rightarrow> int \<Rightarrow> int \<Rightarrow> int" where
  "hashInt str seed mx = \<lfloor>hashFloat str seed * real_of_int mx\<rfloor>"

section \<open>SceneGenerator: \<^verbatim>\<open>walletToParams\<close>\<close>

text \<open>The decimal digits of a number, as \<^verbatim>\<open>a + i\<close> appends them to a string.\<close>

fun decimal :: "nat \<Rightarrow> jsstring" where
  "decimal n = (if n < 10 then [of_nat (48 + n)]
                else decimal (n div 10) @ [of_nat (48 + n mod 10)])"

declare decimal.simps [simp del]

record palette =
  primary :: string
  secondary :: string
  accent :: string

definition palettes :: "palette list" where
  "palettes =
    [\<lparr>primary = ''#00e5ff'', secondary = ''#7c6af7'', accent = ''#ff6b2b''\<rparr>,
     \<lparr>primary = ''#00ff88'', secondary = ''#0066ff'', accent = ''#ff0088''\<rparr>,
     \<lparr>primary = ''#ffcc00'', secondary = ''#ff4400'', accent = ''#00ccff''\<rparr>,
     \<lparr>primary = ''#cc00ff'', secondary = ''#00ffcc'', accent = ''#ff6600''\<rparr>]"

text \<open>
  A position \<^verbatim>\<open>{x, y}\<close>. Nodes, particles, trail entries and the live effect all
  carry these two fields, so their records extend this one.
\<close>

record pos =
  x :: real
  y :: real

record node = pos +
  mass :: real
  speed :: real
  phase :: real
  connections :: "nat list"

record SceneParams =
  nodeCount :: int
  palette :: palette
  nodes :: "node list"
  particleCount :: int
  turbulence :: real
  address :: jsstring
  liveEnabled :: bool

text \<open>The object pushed for node \<open>i\<close> by the first loop; its connections are still empty.\<close>

definition newNode :: "jsstring \<Rightarrow> nat \<Rightarrow> node" where
  "newNode a i =
    \<lparr>x = hashFloat (a @ decimal i) (10 + int i),
     y = hashFloat (a @ decimal i) (20 + int i),
     mass = 0.3 + hashFloat (a @ decimal i) (30 + int i) * 0.7,
     speed = 0.0002 + hashFloat (a @ decimal i) (40 + int i) * 0.0008,
     phase = hashFloat (a @ decimal i) (50 + int i) * pi * 2,
     connections = []\<rparr>"

text \<open>\<^verbatim>\<open>Math.hypot(dx, dy)\<close>.\<close>

definition hypot :: "real \<Rightarrow> real \<Rightarrow> real" where
  "hypot dx dy = sqrt (dx * dx + dy * dy)"

text \<open>
  The candidates of node \<open>i\<close>: every other index \<open>j\<close> with its distance, sorted by
  distance. The distance is what the code computes. The fields \<open>x\<close> and \<open>y\<close> of the
  model are the exact quotients of \<^verbatim>\<open>hashFloat\<close>; the code holds the doubles nearest to
  them, its subtractions round, and \<^verbatim>\<open>Math.hypot\<close> is left to the implementation by
  the language, so the function the engine computes is the parameter \<open>mathHypot\<close>.
  \<^verbatim>\<open>Array.prototype.sort\<close> is stable, as is \<open>sort_key\<close>, so candidates at equal
  computed distances keep the ascending order of the index.
\<close>

definition candidates :: "(real \<Rightarrow> real \<Rightarrow> real) \<Rightarrow> node list \<Rightarrow> nat \<Rightarrow> (nat \<times> real) list" where
  "candidates mathHypot ns i =
    sort_key snd
      (filter (\<lambda>c. fst c \<noteq> i)
        (map (\<lambda>j. (j, mathHypot
                       (subD (toDouble (x (ns ! j))) (toDouble (x (ns ! i))))
                       (subD (toDouble (y (ns ! j))) (toDouble (y (ns ! i))))))
          [0..<length ns]))"

definition connCount :: "jsstring \<Rightarrow> nat \<Rightarrow> int" where
  "connCount a i = 2 + hashInt (a @ js ''conn'' @ decimal i) (int i) 3"

text \<open>
  The second loop. It only writes \<open>connections\<close> and only reads \<open>x\<close> and \<open>y\<close>, so
  every iteration sees the positions the first loop produced.
\<close>

definition connect_nodes ::
  "(real \<Rightarrow> real \<Rightarrow> real) \<Rightarrow> jsstring \<Rightarrow> node list \<Rightarrow> node list" where
  "connect_nodes mathHypot a ns =
    map (\<lambda>i. (ns ! i)\<lparr>connections :=
                 map fst (take (nat (connCount a i)) (candidates mathHypot ns i))\<rparr>)
      [0..<length ns]"

text \<open>
  The first statement of \<^verbatim>\<open>walletToParams\<close>:
  \<^verbatim>\<open>if (!address || address.length < 8) address = 'default_kira_seed'\<close>.
  For a string, \<^verbatim>\<open>!address\<close> holds of the empty string only.
\<close>

definition effectiveSeed :: "jsstring \<Rightarrow> jsstring" where
  "effectiveSeed address0 =
    (if address0 = [] \<or> length address0 < 8 then js ''default_kira_seed'' else address0)"

text \<open>
  \<^verbatim>\<open>walletToParams(address)\<close> for a string argument, in an engine whose \<^verbatim>\<open>Math.hypot\<close>
  is \<open>mathHypot\<close>. The function reads neither \<^verbatim>\<open>Math.random\<close> nor \<^verbatim>\<open>Date.now\<close> nor any
  other state, so the runtime \<open>rt\<close> it is called in does not occur on the right-hand
  side. The returned \<open>address\<close> is the parameter after the substitution of the default
  seed.
\<close>

definition walletToParams ::
  "(real \<Rightarrow> real \<Rightarrow> real) \<Rightarrow> runtime \<Rightarrow> jsstring \<Rightarrow> SceneParams" where
  "walletToParams mathHypot rt address0 =
    (let a = effectiveSeed address0;
         nodeCount = 12 + hashInt a 1 36;
         paletteIdx = hashInt a 2 4;
         ns = connect_nodes mathHypot a (map (newNode a) [0..<nat nodeCount])
     in \<lparr>nodeCount = nodeCount,
         palette = palettes ! nat paletteIdx,
         nodes = ns,
         particleCount = 40 + hashInt a 3 80,
         turbulence = 0.3 + hashFloat a 4 * 0.7,
         address = a,
         liveEnabled = False\<rparr>)"

section \<open>Values received from the feed\<close>

text \<open>
  What \<^verbatim>\<open>JSON.parse\<close> can return, and \<^verbatim>\<open>undefined\<close>, which reading an absent
  property gives.
\<close>

datatype jsval =
    JUndefined
  | JNull
  | JBool bool
  | JNum real
  | JStr jsstring
  | JArr "jsval list"
  | JObj "(jsstring \<times> jsval) list"

text \<open>Truthiness, as \<^verbatim>\<open>!v\<close> and \<^verbatim>\<open>v || d\<close> test it.\<close>

fun truthy :: "jsval \<Rightarrow> bool" where
  "truthy JUndefined = False"
| "truthy JNull = False"
| "truthy (JBool b) = b"
| "truthy (JNum n) = (n \<noteq> 0)"
| "truthy (JStr s) = (s \<noteq> [])"
| "truthy (JArr vs) = True"
| "truthy (JObj kvs) = True"

text \<open>
  Reading the property \<open>k\<close> of a value that is neither \<^verbatim>\<open>null\<close> nor \<^verbatim>\<open>undefined\<close>,
  for the names the feed reads (\<^verbatim>\<open>params\<close>, \<^verbatim>\<open>result\<close>, \<^verbatim>\<open>value\<close>, \<^verbatim>\<open>logs\<close>,
  \<^verbatim>\<open>signature\<close>): an object has the property or not, and no string, array, number or
  boolean has one of these names.
\<close>

fun field :: "jsval \<Rightarrow> jsstring \<Rightarrow> jsval" where
  "field (JObj kvs) k = (case map_of kvs k of Some v \<Rightarrow> v | None \<Rightarrow> JUndefined)"
| "field v k = JUndefined"

text \<open>Optional chaining, \<^verbatim>\<open>v?.k\<close>.\<close>

definition optField :: "jsval \<Rightarrow> jsstring \<Rightarrow> jsval" where
  "optField v k = (if v = JUndefined \<or> v = JNull then JUndefined else field v k)"

text \<open>\<^verbatim>\<open>data?.params?.result?.value\<close>.\<close>

definition resultValue :: "jsval \<Rightarrow> jsval" where
  "resultValue data =
    optField (optField (optField data (js ''params'')) (js ''result'')) (js ''value'')"

text \<open>\<^verbatim>\<open>v || d\<close>.\<close>

definition orElse :: "jsval \<Rightarrow> jsval \<Rightarrow> jsval" where
  "orElse v d = (if truthy v then v else d)"

text \<open>
  \<^verbatim>\<open>l.includes(pat)\<close>: a substring test on a string, a membership test on an array;
  any other receiver has no callable \<^verbatim>\<open>includes\<close>.
\<close>

fun includesJs :: "jsval \<Rightarrow> jsstring \<Rightarrow> error + bool" where
  "includesJs (JStr s) pat = Inr (sublist pat s)"
| "includesJs (JArr vs) pat = Inr (JStr pat \<in> set vs)"
| "includesJs v pat = Inl TypeError"

text \<open>
  \<^verbatim>\<open>Array.prototype.some\<close>: the elements in order, up to the first one the callback
  accepts; an exception of the callback ends the call.
\<close>

fun someOf :: "(jsval \<Rightarrow> error + bool) \<Rightarrow> jsval list \<Rightarrow> error + bool" where
  "someOf f [] = Inr False"
| "someOf f (v # vs) =
    (case f v of Inl e \<Rightarrow> Inl e | Inr b \<Rightarrow> if b then Inr True else someOf f vs)"

text \<open>\<^verbatim>\<open>logs.some(f)\<close>: only an array has \<^verbatim>\<open>some\<close>.\<close>

definition some :: "jsval \<Rightarrow> (jsval \<Rightarrow> error + bool) \<Rightarrow> error + bool" where
  "some logs f = (case logs of JArr vs \<Rightarrow> someOf f vs | _ \<Rightarrow> Inl TypeError)"

text \<open>Sequencing of steps that may throw.\<close>

definition bindE :: "error + 'a \<Rightarrow> ('a \<Rightarrow> error + 'b) \<Rightarrow> error + 'b" where
  "bindE m f = (case m of Inl e \<Rightarrow> Inl e | Inr v \<Rightarrow> f v)"

text \<open>\<^verbatim>\<open>sig.slice(0, 8)\<close>: strings and arrays have \<^verbatim>\<open>slice\<close>.\<close>

fun slice8 :: "jsval \<Rightarrow> error + jsval" where
  "slice8 (JStr s) = Inr (JStr (take 8 s))"
| "slice8 (JArr vs) = Inr (JArr (take 8 vs))"
| "slice8 v = Inl TypeError"

section \<open>EventClassifier: the classification in \<^verbatim>\<open>_handleMessage\<close>\<close>

datatype EventType = TRANSACTION | WHALE | MEV | MINT | BURN

text \<open>The callbacks of the five \<^verbatim>\<open>some\<close> calls.\<close>

definition isTransfer :: "jsval \<Rightarrow> error + bool" where
  "isTransfer l = includesJs l (js ''Instruction: Transfer'')"

definition isLarge :: "jsval \<Rightarrow> error + bool" where
  "isLarge l = includesJs l (js ''1000000000'')"

definition isSwap :: "jsval \<Rightarrow> error + bool" where
  "isSwap l =
    bindE (includesJs l (js ''Program log: Instruction: Swap''))
      (\<lambda>b. if b then Inr True else includesJs l (js ''ArbInstruction''))"

definition isMint :: "jsval \<Rightarrow> error + bool" where
  "isMint l =
    bindE (includesJs l (js ''Instruction: MintTo''))
      (\<lambda>b. if b then Inr True else includesJs l (js ''InitializeMint''))"

definition isBurn :: "jsval \<Rightarrow> error + bool" where
  "isBurn l = includesJs l (js ''Instruction: Burn'')"

text \<open>
  The body of \<^verbatim>\<open>_handleMessage\<close> from \<^verbatim>\<open>let type\<close> to the last \<^verbatim>\<open>if\<close>. The four
  \<^verbatim>\<open>if\<close> statements run in the order of the source, each overwriting \<^verbatim>\<open>type\<close> and
  \<^verbatim>\<open>magnitude\<close>; \<open>k\<close> counts the draws of \<^verbatim>\<open>Math.random()\<close> made so far. The test for
  the large amount is only made when a transfer was found. The magnitudes are computed
  in doubles: every literal is the double nearest to it, and the product and the sum
  round. \<open>0.5\<close> is a double.
\<close>

definition classify :: "(nat \<Rightarrow> real) \<Rightarrow> jsval \<Rightarrow> error + (EventType \<times> real)" where
  "classify rnd logs =
    (let c0 = (TRANSACTION, addD (toDouble 0.3) (mulD (rnd 0) (toDouble 0.4)));
         k0 = (1::nat) in
     bindE (some logs isTransfer) (\<lambda>transfer.
     bindE (if transfer then some logs isLarge else Inr False) (\<lambda>large.
     let c1 = (if large then (WHALE, addD (toDouble 0.8) (mulD (rnd k0) (toDouble 0.2)))
               else c0);
         k1 = (if large then k0 + 1 else k0) in
     bindE (some logs isSwap) (\<lambda>swap.
     let c2 = (if swap then (MEV, addD (toDouble 0.6) (mulD (rnd k1) (toDouble 0.4)))
               else c1) in
     bindE (some logs isMint) (\<lambda>mint.
     let c3 = (if mint then (MINT, 0.5) else c2) in
     bindE (some logs isBurn) (\<lambda>burn.
     let c4 = (if burn then (BURN, 0.5) else c3) in
     Inr c4))))))"

section \<open>FeedController: \<^verbatim>\<open>HeliusLiveFeed\<close>\<close>

text \<open>The object handed to \<^verbatim>\<open>onEvent\<close>.\<close>

record event =
  type :: EventType
  magnitude :: real
  sig :: jsval
  timestamp :: real

text \<open>
  A \<^verbatim>\<open>WebSocket\<close> created by \<^verbatim>\<open>connect\<close>: its ready state, whether each of the four
  handlers is assigned, and how many subscription requests were sent on it.
\<close>

datatype readyState = CONNECTING | OPEN | CLOSING | CLOSED

record socket =
  url :: jsstring
  readyState :: readyState
  onopen :: bool
  onmessage :: bool
  onclose :: bool
  onerror :: bool
  sent :: nat

text \<open>A pending \<^verbatim>\<open>setTimeout\<close>: the callback it will run, and its delay.\<close>

datatype timer = Reconnect real | DemoTick real

fun isDemoTick :: "timer \<Rightarrow> bool" where
  "isDemoTick (DemoTick d) = True"
| "isDemoTick (Reconnect d) = False"

text \<open>
  The fields of \<^verbatim>\<open>HeliusLiveFeed\<close>, and around them what the feed acts on: the sockets
  it has created (\<open>ws\<close> is an index into them), the pending timers, the events passed
  to \<^verbatim>\<open>onEvent\<close> so far (the consumer is taken to return normally), and the exceptions
  that left a handler uncaught.
\<close>

record feed =
  apiKey :: "jsstring option"
  ws :: "nat option"
  connected :: bool
  demoActive :: bool
  reconnectDelay :: real
  eventCount :: nat
  lastEventMs :: real
  sockets :: "socket list"
  timers :: "timer list"
  delivered :: "event list"
  uncaught :: "error list"

definition HELIUS_WS :: jsstring where
  "HELIUS_WS = js ''wss://mainnet.helius-rpc.com/?api-key=''"

text \<open>The constructor. An absent key (\<^verbatim>\<open>undefined\<close>, \<^verbatim>\<open>null\<close>) is \<open>None\<close>.\<close>

definition newFeed :: "jsstring option \<Rightarrow> feed" where
  "newFeed key =
    \<lparr>apiKey = key, ws = None, connected = False, demoActive = False,
     reconnectDelay = 2000, eventCount = 0, lastEventMs = 0,
     sockets = [], timers = [], delivered = [], uncaught = []\<rparr>"

text \<open>\<^verbatim>\<open>scheduleNext\<close>: one timer for the next tick of the demo loop.\<close>

definition scheduleNext :: "(nat \<Rightarrow> real) \<Rightarrow> feed \<Rightarrow> feed" where
  "scheduleNext rnd w = w\<lparr>timers := timers w @ [DemoTick (80 + rnd 0 * 120)]\<rparr>"

definition startDemoMode :: "(nat \<Rightarrow> real) \<Rightarrow> feed \<Rightarrow> feed" where
  "startDemoMode rnd w =
    (if demoActive w then w else scheduleNext rnd (w\<lparr>demoActive := True\<rparr>))"

text \<open>
  The event the demo loop makes from its draw \<open>rand\<close>; \<open>rnd\<close> are the draws after it.
  The result is the type, the magnitude and the number of further draws used.
\<close>

definition demoEvent :: "real \<Rightarrow> (nat \<Rightarrow> real) \<Rightarrow> EventType \<times> real \<times> nat" where
  "demoEvent rand rnd =
    (if rand < 0.005 then (WHALE, 0.85 + rnd 0 * 0.15, 1)
     else if rand < 0.025 then (MEV, 0.6 + rnd 0 * 0.3, 1)
     else if rand < 0.04 then (MINT, 0.5, 0)
     else if rand < 0.05 then (BURN, 0.45, 0)
     else (TRANSACTION, 0.2 + rnd 0 * 0.5, 1))"

text \<open>The callback of the demo timer.\<close>

definition demoTick :: "runtime \<Rightarrow> feed \<Rightarrow> feed" where
  "demoTick rt w =
    (if \<not> connected w \<and> demoActive w then
       (case demoEvent (random rt 0) (\<lambda>k. random rt (k + 1)) of
          (ty, mag, used) \<Rightarrow>
            scheduleNext (\<lambda>k. random rt (k + 1 + used))
              (w\<lparr>eventCount := eventCount w + 1,
                 lastEventMs := now rt 0,
                 delivered := delivered w @
                   [\<lparr>type = ty, magnitude = mag, sig = JStr (js ''demo''),
                     timestamp = now rt 1\<rparr>]\<rparr>))
     else if connected w then w\<lparr>demoActive := False\<rparr>
     else w)"

text \<open>
  \<^verbatim>\<open>connect\<close>. \<open>ctor_ok\<close> tells whether \<^verbatim>\<open>new WebSocket(...)\<close> returns; when it throws,
  \<open>ws\<close> is not assigned and the \<^verbatim>\<open>catch\<close> starts the demo loop.
\<close>

definition connect :: "bool \<Rightarrow> (nat \<Rightarrow> real) \<Rightarrow> feed \<Rightarrow> feed" where
  "connect ctor_ok rnd w =
    (case apiKey w of
       None \<Rightarrow> startDemoMode rnd w
     | Some key \<Rightarrow>
         if key = [] \<or> key = js ''demo'' then startDemoMode rnd w
         else if ctor_ok then
           w\<lparr>ws := Some (length (sockets w)),
             sockets := sockets w @
               [\<lparr>url = HELIUS_WS @ key, readyState = CONNECTING, onopen = True,
                 onmessage = True, onclose = True, onerror = True, sent = 0\<rparr>]\<rparr>
         else startDemoMode rnd w)"

definition setReadyState :: "nat \<Rightarrow> readyState \<Rightarrow> feed \<Rightarrow> feed" where
  "setReadyState i st w = w\<lparr>sockets := (sockets w)[i := (sockets w ! i)\<lparr>readyState := st\<rparr>]\<rparr>"

text \<open>
  \<^verbatim>\<open>this.ws.send(...)\<close> on the current socket \<open>j\<close>: an exception while it is still
  connecting, a sent request when it is open, nothing once it is closing or closed.
\<close>

definition send :: "nat \<Rightarrow> feed \<Rightarrow> feed" where
  "send j w =
    (case readyState (sockets w ! j) of
       CONNECTING \<Rightarrow> w\<lparr>uncaught := uncaught w @ [InvalidStateError]\<rparr>
     | OPEN \<Rightarrow> w\<lparr>sockets := (sockets w)[j := (sockets w ! j)\<lparr>sent := sent (sockets w ! j) + 1\<rparr>]\<rparr>
     | _ \<Rightarrow> w)"

text \<open>\<^verbatim>\<open>this.ws.close()\<close> on the current socket \<open>j\<close>: it starts closing unless it already is.\<close>

definition close :: "nat \<Rightarrow> feed \<Rightarrow> feed" where
  "close j w =
    (if readyState (sockets w ! j) = CONNECTING \<or> readyState (sockets w ! j) = OPEN
     then setReadyState j CLOSING w else w)"

text \<open>
  The four handlers that \<^verbatim>\<open>connect\<close> assigns. They read \<^verbatim>\<open>this.ws\<close>, the socket of the
  latest \<^verbatim>\<open>connect\<close>, which need not be the socket the event is about; calling a method
  of \<^verbatim>\<open>this.ws\<close> while it is \<^verbatim>\<open>null\<close> throws.
\<close>

definition onopenHandler :: "feed \<Rightarrow> feed" where
  "onopenHandler w =
    (let w1 = w\<lparr>connected := True\<rparr>
     in case ws w1 of
          None \<Rightarrow> w1\<lparr>uncaught := uncaught w1 @ [TypeError]\<rparr>
        | Some j \<Rightarrow> send j w1)"

text \<open>
  \<^verbatim>\<open>_handleMessage(data)\<close>. The result carries the exception, if one was thrown, and
  the state at that point: the counter and the time stamp are written before the event
  object is built.
\<close>

definition handleMessage :: "runtime \<Rightarrow> jsval \<Rightarrow> feed \<Rightarrow> error option \<times> feed" where
  "handleMessage rt data w =
    (if \<not> truthy (resultValue data) then (None, w)
     else
       let logs = orElse (field (resultValue data) (js ''logs'')) (JArr []);
           sg = orElse (field (resultValue data) (js ''signature'')) (JStr [])
       in case classify (random rt) logs of
            Inl e \<Rightarrow> (Some e, w)
          | Inr (ty, mag) \<Rightarrow>
              let w1 = w\<lparr>eventCount := eventCount w + 1, lastEventMs := now rt 0\<rparr>
              in case slice8 sg of
                   Inl e \<Rightarrow> (Some e, w1)
                 | Inr s8 \<Rightarrow>
                     (None, w1\<lparr>delivered := delivered w1 @
                        [\<lparr>type = ty, magnitude = mag, sig = s8, timestamp = now rt 1\<rparr>]\<rparr>))"

text \<open>
  The \<^verbatim>\<open>onmessage\<close> handler. \<open>parse\<close> stands for \<^verbatim>\<open>JSON.parse\<close>, with \<open>None\<close> where it
  throws; the \<^verbatim>\<open>catch\<close> drops every exception of the \<^verbatim>\<open>try\<close> block.
\<close>

definition onmessageHandler ::
  "(jsstring \<Rightarrow> jsval option) \<Rightarrow> runtime \<Rightarrow> jsstring \<Rightarrow> feed \<Rightarrow> feed" where
  "onmessageHandler parse rt payload w =
    (case parse payload of
       None \<Rightarrow> w
     | Some data \<Rightarrow> snd (handleMessage rt data w))"

definition oncloseHandler :: "feed \<Rightarrow> feed" where
  "oncloseHandler w =
    w\<lparr>connected := False,
      timers := timers w @ [Reconnect (reconnectDelay w)],
      reconnectDelay := min (reconnectDelay w * 1.5) 30000\<rparr>"

definition onerrorHandler :: "(nat \<Rightarrow> real) \<Rightarrow> feed \<Rightarrow> feed" where
  "onerrorHandler rnd w =
    (case ws w of
       None \<Rightarrow> w\<lparr>uncaught := uncaught w @ [TypeError]\<rparr>
     | Some j \<Rightarrow>
         let w1 = close j w in if \<not> demoActive w1 then startDemoMode rnd w1 else w1)"

definition disconnect :: "feed \<Rightarrow> feed" where
  "disconnect w =
    (case ws w of None \<Rightarrow> w | Some j \<Rightarrow> close j w)\<lparr>connected := False\<rparr>"

subsection \<open>What the environment does\<close>

text \<open>
  The transport delivers events to the sockets and the timers fire. An event that cannot
  occur in the state leaves it as it is. The open event takes a connecting socket to
  \<open>OPEN\<close>, a message arrives on an open socket, the close event takes a socket that is
  not yet closed to \<open>CLOSED\<close>; the error event, which the transport delivers ahead of
  the close event of a failed connection, is allowed in every state. Each event runs
  the handler assigned to the socket.
\<close>

definition wsOpen :: "nat \<Rightarrow> feed \<Rightarrow> feed" where
  "wsOpen i w =
    (if i < length (sockets w) \<and> readyState (sockets w ! i) = CONNECTING then
       let w1 = setReadyState i OPEN w
       in if onopen (sockets w ! i) then onopenHandler w1 else w1
     else w)"

definition wsMessage ::
  "(jsstring \<Rightarrow> jsval option) \<Rightarrow> runtime \<Rightarrow> nat \<Rightarrow> jsstring \<Rightarrow> feed \<Rightarrow> feed" where
  "wsMessage parse rt i payload w =
    (if i < length (sockets w) \<and> readyState (sockets w ! i) = OPEN
        \<and> onmessage (sockets w ! i)
     then onmessageHandler parse rt payload w else w)"

definition wsError :: "(nat \<Rightarrow> real) \<Rightarrow> nat \<Rightarrow> feed \<Rightarrow> feed" where
  "wsError rnd i w =
    (if i < length (sockets w) \<and> onerror (sockets w ! i)
     then onerrorHandler rnd w else w)"

definition wsClose :: "nat \<Rightarrow> feed \<Rightarrow> feed" where
  "wsClose i w =
    (if i < length (sockets w) \<and> readyState (sockets w ! i) \<noteq> CLOSED then
       let w1 = setReadyState i CLOSED w
       in if onclose (sockets w ! i) then oncloseHandler w1 else w1
     else w)"

text \<open>
  Timer \<open>k\<close> of the pending ones fires: it is removed and its callback runs, which is
  \<^verbatim>\<open>connect\<close> for a reconnect timer and the tick for a timer of the demo loop.
\<close>

definition fireTimer :: "bool \<Rightarrow> runtime \<Rightarrow> nat \<Rightarrow> feed \<Rightarrow> feed" where
  "fireTimer ctor_ok rt k w =
    (if k < length (timers w) then
       let w1 = w\<lparr>timers := take k (timers w) @ drop (Suc k) (timers w)\<rparr>
       in case timers w ! k of
            Reconnect d \<Rightarrow> connect ctor_ok (random rt) w1
          | DemoTick d \<Rightarrow> demoTick rt w1
     else w)"

text \<open>
  The states of a feed: the constructor, then the calls of its two public methods, the
  events of the transport and the timers, in any order and with any inputs.
\<close>

inductive reachable :: "feed \<Rightarrow> bool" where
  r_new: "reachable (newFeed key)"
| r_connect: "reachable w \<Longrightarrow> reachable (connect ctor_ok rnd w)"
| r_disconnect: "reachable w \<Longrightarrow> reachable (disconnect w)"
| r_open: "reachable w \<Longrightarrow> reachable (wsOpen i w)"
| r_message: "reachable w \<Longrightarrow> reachable (wsMessage parse rt i payload w)"
| r_error: "reachable w \<Longrightarrow> reachable (wsError rnd i w)"
| r_close: "reachable w \<Longrightarrow> reachable (wsClose i w)"
| r_timer: "reachable w \<Longrightarrow> reachable (fireTimer ctor_ok rt k w)"

section \<open>ParticleSimulation: \<^verbatim>\<open>ParticleSystem\<close> and \<^verbatim>\<open>handleSolanaEvent\<close>\<close>

text \<open>
  A particle. \<open>homeNode\<close> is \<open>None\<close> where the object has no such property, so that
  reading it gives \<^verbatim>\<open>undefined\<close>.
\<close>

record particle = pos +
  vx :: real
  vy :: real
  life :: real
  maxLife :: real
  homeNode :: "nat option"
  trail :: "pos list"

record scaledNode = node +
  sx :: real
  sy :: real

text \<open>
  The effect that \<^verbatim>\<open>handleSolanaEvent\<close> returns has the four fields of the event and the
  three of the table entry (\<open>size'\<close> is the field \<^verbatim>\<open>size\<close>). The live effect adds the
  position of the epicentre (its fields \<^verbatim>\<open>x\<close> and \<^verbatim>\<open>y\<close>, here \<open>epicentre\<close>) and \<open>start\<close>.
\<close>

record effect = event +
  color :: string
  size' :: real
  duration :: real

record liveEffect = effect +
  epicentre :: pos
  start :: real

record canvas =
  width :: real
  height :: real

record ParticleSystem =
  canvas :: canvas
  params :: SceneParams
  particles :: "particle list"
  time :: real
  scaledNodes :: "scaledNode list"
  liveEffect :: "liveEffect option"

text \<open>
  \<^verbatim>\<open>handleSolanaEvent\<close>: the entry of the table for the type, with the fields of the
  event copied in. It also logs and dispatches a window event, which are not modelled.
\<close>

definition handleSolanaEvent :: "event \<Rightarrow> effect" where
  "handleSolanaEvent ev =
    (let (c, s, d) =
       (case type ev of
          TRANSACTION \<Rightarrow> (''#00ffff'', 0.3, 800)
        | WHALE \<Rightarrow> (''#ff00ff'', 1.2, 2000)
        | MEV \<Rightarrow> (''#ffff00'', 0.8, 1200)
        | MINT \<Rightarrow> (''#00ff00'', 0.6, 1500)
        | BURN \<Rightarrow> (''#ff0000'', 0.7, 1400))
     in \<lparr>type = type ev, magnitude = magnitude ev, sig = sig ev, timestamp = timestamp ev,
         color = c, size' = s, duration = d\<rparr>)"

definition scaleNode :: "canvas \<Rightarrow> node \<Rightarrow> scaledNode" where
  "scaleNode cv n =
    \<lparr>x = x n, y = y n, mass = mass n, speed = speed n, phase = phase n,
     connections = connections n, sx = x n * width cv, sy = y n * height cv\<rparr>"

text \<open>
  Reading \<^verbatim>\<open>xs[i]\<close> and then a property of the result: outside the array the element is
  \<^verbatim>\<open>undefined\<close> and the property access throws.
\<close>

definition elementAt :: "'a list \<Rightarrow> int \<Rightarrow> error + 'a" where
  "elementAt xs i = (if 0 \<le> i \<and> i < int (length xs) then Inr (xs ! nat i) else Inl TypeError)"

text \<open>
  The particle that \<^verbatim>\<open>_initParticles\<close> pushes in round \<open>i\<close>, from six draws.
  \<^verbatim>\<open>i % length\<close> is \<^verbatim>\<open>NaN\<close> for an empty array, and then \<^verbatim>\<open>homeNode.sx\<close> throws.
\<close>

definition initParticle :: "(nat \<Rightarrow> real) \<Rightarrow> scaledNode list \<Rightarrow> nat \<Rightarrow> error + particle" where
  "initParticle rnd sns i =
    (if sns = [] then Inl TypeError
     else
       let homeNode = sns ! (i mod length sns) in
       Inr \<lparr>x = sx homeNode + (rnd (6 * i) - 0.5) * 60,
            y = sy homeNode + (rnd (6 * i + 1) - 0.5) * 60,
            vx = (rnd (6 * i + 2) - 0.5) * 0.5,
            vy = (rnd (6 * i + 3) - 0.5) * 0.5,
            life = rnd (6 * i + 4),
            maxLife = 0.6 + rnd (6 * i + 5) * 0.4,
            homeNode = Some (i mod length sns),
            trail = []\<rparr>)"

text \<open>A loop body that may throw, run over a list; the first exception ends the loop.\<close>

fun mapE :: "('a \<Rightarrow> error + 'b) \<Rightarrow> 'a list \<Rightarrow> error + 'b list" where
  "mapE f [] = Inr []"
| "mapE f (v # vs) =
    (case f v of
       Inl e \<Rightarrow> Inl e
     | Inr u \<Rightarrow> (case mapE f vs of Inl e \<Rightarrow> Inl e | Inr us \<Rightarrow> Inr (u # us)))"

definition initParticles :: "runtime \<Rightarrow> ParticleSystem \<Rightarrow> error + ParticleSystem" where
  "initParticles rt ps =
    (let sns = map (scaleNode (canvas ps)) (nodes (params ps)) in
     case mapE (initParticle (random rt) sns) [0..<nat (particleCount (params ps))] of
       Inl e \<Rightarrow> Inl e
     | Inr pts \<Rightarrow> Inr (ps\<lparr>scaledNodes := sns, particles := pts\<rparr>))"

text \<open>The constructor.\<close>

definition newParticleSystem :: "runtime \<Rightarrow> canvas \<Rightarrow> SceneParams \<Rightarrow> error + ParticleSystem" where
  "newParticleSystem rt cv prm =
    initParticles rt
      \<lparr>canvas = cv, params = prm, particles = [], time = 0, scaledNodes = [],
       liveEffect = None\<rparr>"

definition resize :: "ParticleSystem \<Rightarrow> ParticleSystem" where
  "resize ps = ps\<lparr>scaledNodes := map (scaleNode (canvas ps)) (nodes (params ps))\<rparr>"

text \<open>
  \<^verbatim>\<open>handleLiveEvent(effect)\<close>. The epicentre is drawn first; the particle of the
  \<^verbatim>\<open>mint\<close> branch is pushed with the seven properties the source lists, and \<^verbatim>\<open>homeNode\<close>
  is not among them.
\<close>

definition handleLiveEvent :: "runtime \<Rightarrow> effect \<Rightarrow> ParticleSystem \<Rightarrow> error + ParticleSystem" where
  "handleLiveEvent rt eff ps =
    (let idx = \<lfloor>random rt 0 * real (length (nodes (params ps)))\<rfloor> in
     case elementAt (nodes (params ps)) idx of
       Inl e \<Rightarrow> Inl e
     | Inr node \<Rightarrow>
         let W = width (canvas ps); H = height (canvas ps);
             ps1 = ps\<lparr>liveEffect := Some
                     \<lparr>type = type eff, magnitude = magnitude eff, sig = sig eff,
                      timestamp = timestamp eff, color = color eff, size' = size' eff,
                      duration = (if duration eff = 0 then 1000 else duration eff),
                      epicentre = \<lparr>x = x node, y = y node\<rparr>, start = now rt 0\<rparr>\<rparr>
         in
         if type eff = WHALE then
           Inr (ps1\<lparr>particles :=
             map (\<lambda>p. let dx = x node * W - x p; dy = y node * H - y p;
                           dist = sqrt (dx * dx + dy * dy)
                       in if dist < 200
                          then p\<lparr>vx := vx p + dx * 0.0005 * magnitude eff,
                                 vy := vy p + dy * 0.0005 * magnitude eff\<rparr>
                          else p)
               (particles ps1)\<rparr>)
         else if type eff = MINT then
           Inr (ps1\<lparr>particles := particles ps1 @
             [\<lparr>x = x node * W, y = y node * H,
               vx = (random rt 1 - 0.5) * 2, vy = (random rt 2 - 0.5) * 2,
               life = 1000, maxLife = 1000, homeNode = None, trail = []\<rparr>]\<rparr>)
         else if type eff = BURN then
           Inr (ps1\<lparr>particles :=
             filter (\<lambda>p. let dx = x node * W - x p; dy = y node * H - y p
                          in dx * dx + dy * dy > 4000)
               (particles ps1)\<rparr>)
         else Inr ps1)"

text \<open>
  One round of the particle loop of \<^verbatim>\<open>update\<close>, for the particle \<open>p\<close> at time \<open>t\<close>;
  \<open>k\<close> is the number of draws made by the rounds before. The result is the particle
  and the number of draws after the round. \<^verbatim>\<open>this.scaledNodes[p.homeNode]\<close> is
  \<^verbatim>\<open>undefined\<close> when the particle has no \<^verbatim>\<open>homeNode\<close> or the index is outside the array,
  and \<^verbatim>\<open>home.sx\<close> then throws.
\<close>

definition updateParticle ::
  "(nat \<Rightarrow> real) \<Rightarrow> ParticleSystem \<Rightarrow> real \<Rightarrow> particle \<Rightarrow> nat \<Rightarrow> error + (particle \<times> nat)" where
  "updateParticle rnd ps t p k =
    (case homeNode p of
       None \<Rightarrow> Inl TypeError
     | Some h \<Rightarrow>
        (case elementAt (scaledNodes ps) (int h) of
           Inl e \<Rightarrow> Inl e
         | Inr home \<Rightarrow>
            let W = width (canvas ps); H = height (canvas ps);
                dx = sx home + sin (t + phase home) * 40 - x p;
                dy = sy home + cos (t * 0.7 + phase home) * 40 - y p;
                dist = hypot dx dy;
                angle = (x p * 0.003 + y p * 0.003 + t * 0.3) * turbulence (params ps);
                vx1 = (vx p + (dx / max dist 1 * 0.04 + cos angle * 0.02)) * 0.96;
                vy1 = (vy p + (dy / max dist 1 * 0.04 + sin angle * 0.02)) * 0.96;
                x1 = x p + vx1;
                y1 = y p + vy1;
                trail1 = trail p @ [\<lparr>x = x1, y = y1\<rparr>];
                trail2 = (if length trail1 > 18 then tl trail1 else trail1);
                life1 = life p + 0.004
            in if life1 > maxLife p \<or> x1 < 0 \<or> x1 > W \<or> y1 < 0 \<or> y1 > H
               then Inr (p\<lparr>x := sx home + (rnd k - 0.5) * 80,
                           y := sy home + (rnd (k + 1) - 0.5) * 80,
                           vx := (rnd (k + 2) - 0.5) * 0.4,
                           vy := (rnd (k + 3) - 0.5) * 0.4,
                           life := 0, trail := []\<rparr>, k + 4)
               else Inr (p\<lparr>x := x1, y := y1, vx := vx1, vy := vy1,
                           life := life1, trail := trail2\<rparr>, k)))"

text \<open>The loop \<^verbatim>\<open>for (const p of this.particles)\<close>.\<close>

fun updateParticles ::
  "(nat \<Rightarrow> real) \<Rightarrow> ParticleSystem \<Rightarrow> real \<Rightarrow> particle list \<Rightarrow> nat \<Rightarrow> error + particle list" where
  "updateParticles rnd ps t [] k = Inr []"
| "updateParticles rnd ps t (p # pts) k =
    (case updateParticle rnd ps t p k of
       Inl e \<Rightarrow> Inl e
     | Inr (p1, k1) \<Rightarrow>
        (case updateParticles rnd ps t pts k1 of
           Inl e \<Rightarrow> Inl e
         | Inr pts1 \<Rightarrow> Inr (p1 # pts1)))"

text \<open>\<^verbatim>\<open>update()\<close>: the clock of the simulation, the particles, then the drift of the nodes.\<close>

definition update :: "runtime \<Rightarrow> ParticleSystem \<Rightarrow> error + ParticleSystem" where
  "update rt ps =
    (let t = time ps + 0.008; W = width (canvas ps); H = height (canvas ps) in
     case updateParticles (random rt) ps t (particles ps) 0 of
       Inl e \<Rightarrow> Inl e
     | Inr pts \<Rightarrow>
         Inr (ps\<lparr>time := t, particles := pts,
                 scaledNodes :=
                   map (\<lambda>n. n\<lparr>sx := x n * W + sin (t * speed n * 200 + phase n) * 18,
                               sy := y n * H + cos (t * speed n * 160 + phase n) * 18\<rparr>)
                     (scaledNodes ps)\<rparr>))"

section \<open>Notions used in the statements\<close>

text \<open>Some line of \<open>ls\<close> contains one of the patterns \<open>pats\<close>.\<close>

definition mentions :: "jsstring list \<Rightarrow> string list \<Rightarrow> bool" where
  "mentions ls pats = (\<exists>l \<in> set ls. \<exists>p \<in> set pats. sublist (js p) l)"

text \<open>
  The type the demo loop gives to the draw \<open>rand\<close>, the draws with a given type, and
  the length of that part of the range \<open>[0, 1)\<close>.
\<close>

definition demoType :: "real \<Rightarrow> EventType" where
  "demoType rand = fst (demoEvent rand (\<lambda>k. 0))"

definition band :: "EventType \<Rightarrow> real set" where
  "band t = {rand. 0 \<le> rand \<and> rand < 1 \<and> demoType rand = t}"

definition bandWidth :: "EventType \<Rightarrow> real" where
  "bandWidth t = Sup (band t) - Inf (band t)"

text \<open>A key with which \<^verbatim>\<open>connect\<close> opens a socket.\<close>

definition validKey :: "jsstring option \<Rightarrow> bool" where
  "validKey key = (case key of None \<Rightarrow> False | Some k \<Rightarrow> k \<noteq> [] \<and> k \<noteq> js ''demo'')"

text \<open>The number of pending timers of the demo loop.\<close>

definition demoTimers :: "feed \<Rightarrow> nat" where
  "demoTimers w = length (filter isDemoTick (timers w))"

text \<open>All four handlers of a socket are assigned.\<close>

definition wired :: "socket \<Rightarrow> bool" where
  "wired s = (onopen s \<and> onmessage s \<and> onclose s \<and> onerror s)"

text \<open>
  The invariant of the feed: every socket has its handlers; \<open>ws\<close> is \<^verbatim>\<open>null\<close> only
  before the first socket and otherwise one of the sockets; sockets exist only for a
  key that opens one; a timer of the demo loop is pending exactly while \<open>demoActive\<close>
  is set, and then only one; the reconnect delay lies between 2000 and 30000.
\<close>

definition feedInv :: "feed \<Rightarrow> bool" where
  "feedInv w =
    (list_all wired (sockets w) \<and>
     (ws w = None \<longrightarrow> sockets w = []) \<and>
     (\<forall>j. ws w = Some j \<longrightarrow> j < length (sockets w)) \<and>
     (sockets w = [] \<or> validKey (apiKey w)) \<and>
     demoTimers w = (if demoActive w then 1 else 0) \<and>
     2000 \<le> reconnectDelay w \<and> reconnectDelay w \<le> 30000)"

subsection \<open>Concrete inputs\<close>

definition rt0 :: runtime where
  "rt0 = \<lparr>random = (\<lambda>k. 1 / 2), now = (\<lambda>k. 0)\<rparr>"


text \<open>Two messages: one with a mint and a burn line, one with a large transfer.\<close>

definition mintBurnLogs :: "jsstring list" where
  "mintBurnLogs =
    [js ''Program log: Instruction: MintTo'', js ''Program log: Instruction: Burn'']"

definition whaleLogs :: "jsstring list" where
  "whaleLogs =
    [js ''Program log: Instruction: Transfer'', js ''Program log: lamports 1000000000'']"

text \<open>A parser that knows one message, which has \<^verbatim>\<open>params\<close> but no \<^verbatim>\<open>result\<close>.\<close>

definition parse0 :: "jsstring \<Rightarrow> jsval option" where
  "parse0 s =
    (if s = js ''{\"params\":{}}'' then Some (JObj [(js ''params'', JObj [])]) else None)"

text \<open>A feed with a key, after \<^verbatim>\<open>connect\<close> and the open event of its socket.\<close>

definition live0 :: feed where
  "live0 = wsOpen 0 (connect True (\<lambda>k. 1 / 2) (newFeed (Some (js ''key''))))"

text \<open>
  A feed whose first connection was closed before it opened, after the reconnect timer
  has fired: its second socket is connecting.
\<close>

definition failedOnce :: feed where
  "failedOnce =
    fireTimer True rt0 0
      (wsClose 0 (connect True (random rt0) (newFeed (Some (js ''key'')))))"

text \<open>
  A feed whose first socket had an error, which started the demo loop, and whose second
  socket, from a second call of \<^verbatim>\<open>connect\<close>, has opened.
\<close>

definition demoLive :: feed where
  "demoLive =
    wsOpen 1 (connect True (random rt0)
      (wsError (random rt0) 0 (connect True (random rt0) (newFeed (Some (js ''key''))))))"

text \<open>
  A \<^verbatim>\<open>Math.hypot\<close> that rounds the exact result, and the draws of a generator that
  returns \<open>1 - 2^-52\<close> every time, the largest value of a generator with 52 random bits.
\<close>

definition roundedHypot :: "real \<Rightarrow> real \<Rightarrow> real" where
  "roundedHypot dx dy = toDouble (hypot dx dy)"

definition maxDraws :: "nat \<Rightarrow> real" where
  "maxDraws k = 1 - 1 / 2 ^ 52"

text \<open>
  A feed after a failed first connection whose error started the demo loop: the
  reconnect timer has fired and the second socket has opened, with one tick of the demo
  loop pending.
\<close>

definition reopened :: feed where
  "reopened =
    wsOpen 1 (fireTimer True rt0 1
      (wsClose 0 (wsError (random rt0) 0
        (connect True (random rt0) (newFeed (Some (js ''key'')))))))"

text \<open>A canvas, and a mint event as the feed delivers it.\<close>

definition canvas0 :: canvas where
  "canvas0 = \<lparr>width = 800, height = 600\<rparr>"

definition mintEvent :: event where
  "mintEvent = \<lparr>type = MINT, magnitude = 0.5, sig = JStr (js ''demo''), timestamp = 0\<rparr>"

section \<open>Rounding to doubles\<close>

text \<open>
  Rounding is monotone on the numbers that are not negative, and the nearest double of
  a number in a known binade is found by rounding its significand.
\<close>

lemma rne_floor: "\<lfloor>q\<rfloor> \<le> rne q" and rne_floor1: "rne q \<le> \<lfloor>q\<rfloor> + 1"
  by (simp_all add: rne_def Let_def)

lemma rne_int [simp]: "rne (real_of_int n) = n"
  by (simp add: rne_def)

lemma rne_ge: 
  assumes "real_of_int n \<le> q" shows "n \<le> rne q"
proof -
  have "n \<le> \<lfloor>q\<rfloor>" using assms by (simp add: le_floor_iff)
  then show ?thesis using rne_floor[of q] by linarith
qed

lemma rne_le: 
  assumes "q \<le> real_of_int n" shows "rne q \<le> n"
proof (cases "q = real_of_int \<lfloor>q\<rfloor>")
  case True
  then have "rne q = \<lfloor>q\<rfloor>" by (metis rne_int)
  moreover have "\<lfloor>q\<rfloor> \<le> n" using assms by (simp add: floor_le_iff)
  ultimately show ?thesis by simp
next
  case False
  then have "real_of_int \<lfloor>q\<rfloor> < q"
    using of_int_floor_le[of q] by (metis less_le)
  then have "real_of_int \<lfloor>q\<rfloor> < real_of_int n" using assms by linarith
  then have "\<lfloor>q\<rfloor> + 1 \<le> n" by simp
  then show ?thesis using rne_floor1[of q] by linarith
qed

lemma rne_mono: 
  assumes "a \<le> b" shows "rne a \<le> rne b"
proof (cases "\<lfloor>a\<rfloor> = \<lfloor>b\<rfloor>")
  case True
  then show ?thesis using assms by (auto simp: rne_def Let_def)
next
  case False
  then have "\<lfloor>a\<rfloor> < \<lfloor>b\<rfloor>" using floor_mono[OF assms] by linarith
  then show ?thesis using rne_floor1[of a] rne_floor[of b] by linarith
qed

lemma ulp_pos: "0 < ulp v" by (simp add: ulp_def)

lemma two_powr_int: "2 powr real_of_int e = 2 powi e"
  by (simp add: powr_real_of_int')

lemma expo_upper: 
  assumes "v \<noteq> 0" shows "\<bar>v\<bar> < 2 powi (expo v + 1)"
proof -
  have "log 2 \<bar>v\<bar> < real_of_int (\<lfloor>log 2 \<bar>v\<bar>\<rfloor> + 1)" by linarith
  also have "\<dots> \<le> real_of_int (expo v + 1)" by (simp add: expo_def)
  finally have "log 2 \<bar>v\<bar> < real_of_int (expo v + 1)" .
  then have "\<bar>v\<bar> < 2 powr real_of_int (expo v + 1)" using assms by (simp add: log_less_iff)
  then show ?thesis by (simp only: two_powr_int)
qed

lemma expo_lower:
  assumes "v \<noteq> 0" "- 1022 < expo v" shows "2 powi (expo v) \<le> \<bar>v\<bar>"
proof -
  have "expo v = \<lfloor>log 2 \<bar>v\<bar>\<rfloor>" using assms(2) by (auto simp: expo_def max_def split: if_splits)
  then have "real_of_int (expo v) \<le> log 2 \<bar>v\<bar>" by simp
  then have "2 powr real_of_int (expo v) \<le> \<bar>v\<bar>" using assms(1) by (simp add: le_log_iff)
  then show ?thesis by (simp only: two_powr_int)
qed

lemma expo_mono: 
  assumes "0 < a" "a \<le> b" shows "expo a \<le> expo b"
proof -
  have "log 2 \<bar>a\<bar> \<le> log 2 \<bar>b\<bar>" using assms by simp
  then have "\<lfloor>log 2 \<bar>a\<bar>\<rfloor> \<le> \<lfloor>log 2 \<bar>b\<bar>\<rfloor>" by (rule floor_mono)
  then show ?thesis unfolding expo_def by linarith
qed

lemma two_powi_split: "(2::real) powi (e + 1) = 2 ^ 53 * 2 powi (e - 52)"
proof -
  have "(2::real) powi (53 + (e - 52)) = 2 powi 53 * 2 powi (e - 52)"
    by (rule power_int_add) simp
  then show ?thesis by (simp add: add.commute)
qed

lemma two_powi_split': "(2::real) powi e = 2 ^ 52 * 2 powi (e - 52)"
proof -
  have "(2::real) powi (52 + (e - 52)) = 2 powi 52 * 2 powi (e - 52)"
    by (rule power_int_add) simp
  then show ?thesis by simp
qed

lemma toDouble_upper:
  assumes "0 < v" shows "toDouble v \<le> 2 powi (expo v + 1)"
proof -
  have "v < 2 ^ 53 * ulp v" using expo_upper[of v] assms by (simp add: ulp_def two_powi_split)
  then have "v / ulp v \<le> real_of_int (2 ^ 53)" using ulp_pos[of v] by (simp add: pos_divide_le_eq)
  then have "rne (v / ulp v) \<le> 2 ^ 53" by (rule rne_le)
  then have "real_of_int (rne (v / ulp v)) \<le> real_of_int (2 ^ 53)" by (simp only: of_int_le_iff)
  then have "real_of_int (rne (v / ulp v)) * ulp v \<le> 2 ^ 53 * ulp v"
    using ulp_pos[of v] by (simp add: mult_right_mono)
  then show ?thesis using assms by (simp add: toDouble_def two_powi_split ulp_def)
qed

lemma toDouble_lower:
  assumes "0 < v" "- 1022 < expo v" shows "2 powi (expo v) \<le> toDouble v"
proof -
  have "2 ^ 52 * ulp v \<le> v" using expo_lower[of v] assms by (simp add: ulp_def two_powi_split'[of "expo v"])
  then have "real_of_int (2 ^ 52) \<le> v / ulp v" using ulp_pos[of v] by (simp add: pos_le_divide_eq)
  then have "2 ^ 52 \<le> rne (v / ulp v)" by (rule rne_ge)
  then have "real_of_int (2 ^ 52) \<le> real_of_int (rne (v / ulp v))" by (simp only: of_int_le_iff)
  then have "2 ^ 52 * ulp v \<le> real_of_int (rne (v / ulp v)) * ulp v"
    using ulp_pos[of v] by (simp add: mult_right_mono)
  then show ?thesis using assms by (simp add: toDouble_def two_powi_split'[of "expo v"] ulp_def)
qed

lemma toDouble_nonneg: "0 \<le> v \<Longrightarrow> 0 \<le> toDouble v"
  using rne_ge[of 0 "v / ulp v"] ulp_pos[of v] by (simp add: toDouble_def)

lemma toDouble_mono:
  assumes "0 \<le> a" "a \<le> b" shows "toDouble a \<le> toDouble b"
proof (cases "a = 0")
  case True
  then show ?thesis using toDouble_nonneg[of b] assms by (simp add: toDouble_def)
next
  case False
  then have a: "0 < a" and b: "0 < b" using assms by auto
  have le: "expo a \<le> expo b" using a assms(2) by (rule expo_mono)
  show ?thesis
  proof (cases "expo a = expo b")
    case True
    then have u: "ulp a = ulp b" by (simp add: ulp_def)
    have "a / ulp b \<le> b / ulp b" using assms(2) ulp_pos[of b] by (simp add: divide_right_mono)
    then have "rne (a / ulp b) \<le> rne (b / ulp b)" by (rule rne_mono)
    then have "real_of_int (rne (a / ulp b)) * ulp b \<le> real_of_int (rne (b / ulp b)) * ulp b"
      using ulp_pos[of b] by (simp add: mult_right_mono)
    then show ?thesis using a b u by (simp add: toDouble_def)
  next
    case False
    then have lt: "expo a + 1 \<le> expo b" using le by simp
    have "- 1022 \<le> expo a" by (simp add: expo_def)
    then have "- 1022 < expo b" using lt by linarith
    then have "2 powi (expo b) \<le> toDouble b" using b toDouble_lower by simp
    moreover have "(2::real) powi (expo a + 1) \<le> 2 powi (expo b)"
      using lt by (intro power_int_increasing) simp_all
    ultimately show ?thesis using toDouble_upper[OF a] by linarith
  qed
qed

lemma toDouble_eval:
  assumes "2 ^ 52 \<le> v * 2 ^ n" "v * 2 ^ n < 2 ^ 53" "n \<le> 1074"
  shows "toDouble v = real_of_int (rne (v * 2 ^ n)) / 2 ^ n"
proof -
  have v: "0 < v"
  proof (rule ccontr)
    assume "\<not> 0 < v"
    then have "v * 2 ^ n \<le> 0" by (simp add: mult_le_0_iff)
    then show False using assms(1) by simp
  qed
  have p: "(2::real) powi (52 - int n) = 2 ^ 52 / 2 ^ n"
    by (simp add: power_int_diff)
  have p1: "(2::real) powi (52 - int n + 1) = 2 ^ 53 / 2 ^ n"
    using power_int_diff[of "2::real" 53 "int n"] by (simp add: algebra_simps)
  have "2 powr real_of_int (52 - int n) \<le> v"
    unfolding two_powr_int p using assms(1) by (simp add: pos_divide_le_eq)
  moreover have "v < 2 powr real_of_int (52 - int n + 1)"
    unfolding two_powr_int p1 using assms(2) by (simp add: pos_less_divide_eq)
  ultimately have "\<lfloor>log 2 v\<rfloor> = 52 - int n"
    using v floor_log_eq_powr_iff[of v 2 "52 - int n"] by simp
  then have "expo v = 52 - int n" using v assms(3) by (simp add: expo_def)
  then have "ulp v = 1 / 2 ^ n"
    by (simp add: ulp_def power_int_diff power_int_minus_divide)
  then show ?thesis using v by (simp add: toDouble_def)
qed

section \<open>The seeded hash and the generator\<close>

lemma hashBucket_bounds: "0 \<le> hashBucket s k \<and> hashBucket s k < 100000"
  by (simp add: hashBucket_def)

lemma hashFloat_bounds: "0 \<le> hashFloat s k \<and> hashFloat s k < 1"
  using hashBucket_bounds[of s k] by (simp add: hashFloat_def)

lemma hashInt_bounds:
  assumes "0 < m"
  shows "0 \<le> hashInt s k m \<and> hashInt s k m < m"
proof -
  have h: "0 \<le> hashFloat s k" "hashFloat s k < 1"
    using hashFloat_bounds by auto
  have "hashFloat s k * real_of_int m < real_of_int m"
    using h assms by (simp add: mult_less_cancel_right1)
  moreover have "0 \<le> hashFloat s k * real_of_int m"
    using h assms by simp
  ultimately show ?thesis
    by (simp add: hashInt_def floor_less_iff)
qed




lemma length_connect_nodes: "length (connect_nodes mh a ns) = length ns"
  by (simp add: connect_nodes_def)



lemma nodeCount_eq: "nodeCount (walletToParams mh rt a) = 12 + hashInt (effectiveSeed a) 1 36"
  by (simp add: walletToParams_def Let_def)

lemma nodes_eq:
  "nodes (walletToParams mh rt a) =
   connect_nodes mh (effectiveSeed a)
     (map (newNode (effectiveSeed a)) [0..<nat (12 + hashInt (effectiveSeed a) 1 36)])"
  by (simp add: walletToParams_def Let_def)


lemma length_nodes:
  "int (length (nodes (walletToParams mh rt a))) = nodeCount (walletToParams mh rt a)"
  using hashInt_bounds[of 36 "effectiveSeed a" 1]
  by (simp add: nodes_eq nodeCount_eq length_connect_nodes)




lemma hashInt_default_seed: "hashInt (js ''default_kira_seed'') 1 36 = 31"
  by code_simp

lemma effectiveSeed_default:
  "effectiveSeed (js ''default_kira_seed'') = js ''default_kira_seed''"
  by (simp add: effectiveSeed_def js_def)

lemma nodeCount_default: "nodeCount (walletToParams mh rt (js ''default_kira_seed'')) = 43"
  by (simp add: nodeCount_eq effectiveSeed_default hashInt_default_seed)





text \<open>
  Claim C8. A seed that is empty or shorter than 8 code units is replaced by the default
  seed before any hashing, so it yields the parameters of the default seed itself.
\<close>

theorem short_seed_default:
  "length a < 8 \<Longrightarrow> walletToParams mh rt a = walletToParams mh rt' (js ''default_kira_seed'')"
  by (simp add: walletToParams_def effectiveSeed_def js_def)

text \<open>Claim C8 at the seed \<^verbatim>\<open>abc\<close> and at the empty seed.\<close>

theorem short_seed_default_witness:
  "length (js ''abc'') < 8 \<and> length ([] :: jsstring) < 8 \<and>
   walletToParams roundedHypot rt0 (js ''abc'') = walletToParams roundedHypot rt0 (js ''default_kira_seed'') \<and>
   walletToParams roundedHypot rt0 [] = walletToParams roundedHypot rt0 (js ''default_kira_seed'')"
  using short_seed_default[of "js ''abc''" roundedHypot rt0 rt0] short_seed_default[of "[]" roundedHypot rt0 rt0]
  by (simp add: js_def)

section \<open>The classifier\<close>

text \<open>On an array of strings each \<^verbatim>\<open>some\<close> call returns, and tests for a substring.\<close>

lemma someOf_lines:
  assumes "\<And>l. f (JStr l) = Inr (P l)"
  shows "someOf f (map JStr ls) = Inr (\<exists>l \<in> set ls. P l)"
  using assms by (induction ls) auto

lemma some_isTransfer:
  "some (JArr (map JStr ls)) isTransfer = Inr (mentions ls [''Instruction: Transfer''])"
  by (simp add: some_def mentions_def isTransfer_def
      someOf_lines[where P="\<lambda>l. sublist (js ''Instruction: Transfer'') l"])

lemma some_isLarge:
  "some (JArr (map JStr ls)) isLarge = Inr (mentions ls [''1000000000''])"
  by (simp add: some_def mentions_def isLarge_def
      someOf_lines[where P="\<lambda>l. sublist (js ''1000000000'') l"])

lemma some_isSwap:
  "some (JArr (map JStr ls)) isSwap
     = Inr (mentions ls [''Program log: Instruction: Swap'', ''ArbInstruction''])"
  by (simp add: some_def mentions_def isSwap_def bindE_def
      someOf_lines[where P="\<lambda>l. sublist (js ''Program log: Instruction: Swap'') l
                              \<or> sublist (js ''ArbInstruction'') l"])

lemma some_isMint:
  "some (JArr (map JStr ls)) isMint
     = Inr (mentions ls [''Instruction: MintTo'', ''InitializeMint''])"
  by (simp add: some_def mentions_def isMint_def bindE_def
      someOf_lines[where P="\<lambda>l. sublist (js ''Instruction: MintTo'') l
                              \<or> sublist (js ''InitializeMint'') l"])

lemma some_isBurn:
  "some (JArr (map JStr ls)) isBurn = Inr (mentions ls [''Instruction: Burn''])"
  by (simp add: some_def mentions_def isBurn_def
      someOf_lines[where P="\<lambda>l. sublist (js ''Instruction: Burn'') l"])

text \<open>The literals of the classifier as doubles.\<close>

lemma double_02: "toDouble 0.2 = 7205759403792794 / 2 ^ 55"
  by (subst toDouble_eval[where n=55]) (simp_all add: rne_def)
lemma double_03: "toDouble 0.3 = 5404319552844595 / 2 ^ 54"
  by (subst toDouble_eval[where n=54]) (simp_all add: rne_def)
lemma double_04: "toDouble 0.4 = 7205759403792794 / 2 ^ 54"
  by (subst toDouble_eval[where n=54]) (simp_all add: rne_def)
lemma double_06: "toDouble 0.6 = 5404319552844595 / 2 ^ 53"
  by (subst toDouble_eval[where n=53]) (simp_all add: rne_def)
lemma double_07: "toDouble 0.7 = 6305039478318694 / 2 ^ 53"
  by (subst toDouble_eval[where n=53]) (simp_all add: rne_def)
lemma double_08: "toDouble 0.8 = 7205759403792794 / 2 ^ 53"
  by (subst toDouble_eval[where n=53]) (simp_all add: rne_def)

text \<open>The literals are doubles: rounding them again changes nothing.\<close>

lemma double_02_fixed: "toDouble (toDouble 0.2) = toDouble 0.2"
  unfolding double_02 by (subst toDouble_eval[where n=55]) (simp_all add: rne_def)
lemma double_03_fixed: "toDouble (toDouble 0.3) = toDouble 0.3"
  unfolding double_03 by (subst toDouble_eval[where n=54]) (simp_all add: rne_def)
lemma double_04_fixed: "toDouble (toDouble 0.4) = toDouble 0.4"
  unfolding double_04 by (subst toDouble_eval[where n=54]) (simp_all add: rne_def)
lemma double_06_fixed: "toDouble (toDouble 0.6) = toDouble 0.6"
  unfolding double_06 by (subst toDouble_eval[where n=53]) (simp_all add: rne_def)
lemma double_08_fixed: "toDouble (toDouble 0.8) = toDouble 0.8"
  unfolding double_08 by (subst toDouble_eval[where n=53]) (simp_all add: rne_def)

text \<open>The sums of the literals, in doubles.\<close>

lemma double_08_02: "toDouble (toDouble 0.8 + toDouble 0.2) = 1"
  unfolding double_08 double_02 by (subst toDouble_eval[where n=52]) (simp_all add: rne_def)
lemma double_06_04: "toDouble (toDouble 0.6 + toDouble 0.4) = 1"
  unfolding double_06 double_04 by (subst toDouble_eval[where n=52]) (simp_all add: rne_def)
lemma double_03_04: "toDouble (toDouble 0.3 + toDouble 0.4) = toDouble 0.7"
  unfolding double_03 double_04 double_07
  by (subst toDouble_eval[where n=53]) (simp_all add: rne_def)

text \<open>
  A magnitude \<^verbatim>\<open>a + Math.random() * b\<close> lies between \<open>a\<close> and the rounded sum of \<open>a\<close>
  and \<open>b\<close>, both ends included.
\<close>

lemma magnitude_bounds:
  assumes r: "0 \<le> r" "r < 1" and a: "0 \<le> a" "toDouble a = a" and b: "0 \<le> b" "toDouble b = b"
  shows "a \<le> addD a (mulD r b) \<and> addD a (mulD r b) \<le> toDouble (a + b)"
proof -
  have "0 \<le> r * b" "r * b \<le> b"
    using r b(1) by (simp_all add: mult_left_le_one_le)
  then have m: "0 \<le> mulD r b" "mulD r b \<le> b"
    using toDouble_nonneg[of "r * b"] toDouble_mono[of "r * b" b] b(2)
    by (simp_all add: mulD_def)
  have "toDouble a \<le> toDouble (a + mulD r b)"
    using a(1) m(1) by (intro toDouble_mono) simp_all
  moreover have "toDouble (a + mulD r b) \<le> toDouble (a + b)"
    using a(1) m by (intro toDouble_mono) simp_all
  ultimately show ?thesis
    using a(2) by (simp add: addD_def)
qed

lemma whale_magnitude:
  assumes "0 \<le> r" "r < 1"
  shows "toDouble 0.8 \<le> addD (toDouble 0.8) (mulD r (toDouble 0.2)) \<and>
         addD (toDouble 0.8) (mulD r (toDouble 0.2)) \<le> 1"
  using magnitude_bounds[OF assms toDouble_nonneg double_08_fixed toDouble_nonneg double_02_fixed]
  unfolding double_08_02 by simp

lemma mev_magnitude:
  assumes "0 \<le> r" "r < 1"
  shows "toDouble 0.6 \<le> addD (toDouble 0.6) (mulD r (toDouble 0.4)) \<and>
         addD (toDouble 0.6) (mulD r (toDouble 0.4)) \<le> 1"
  using magnitude_bounds[OF assms toDouble_nonneg double_06_fixed toDouble_nonneg double_04_fixed]
  unfolding double_06_04 by simp

lemma tx_magnitude:
  assumes "0 \<le> r" "r < 1"
  shows "toDouble 0.3 \<le> addD (toDouble 0.3) (mulD r (toDouble 0.4)) \<and>
         addD (toDouble 0.3) (mulD r (toDouble 0.4)) \<le> toDouble 0.7"
  using magnitude_bounds[OF assms toDouble_nonneg double_03_fixed toDouble_nonneg double_04_fixed]
  unfolding double_03_04 by simp

text \<open>At the largest draw the sums round up to the end of the range.\<close>

lemma maxDraws_range: "0 \<le> maxDraws k" "maxDraws k < 1"
  by (simp_all add: maxDraws_def)

lemma maxDraws_double: "toDouble (maxDraws k) = maxDraws k"
  unfolding maxDraws_def by (subst toDouble_eval[where n=53]) (simp_all add: rne_def)

lemma whale_at_max: "addD (toDouble 0.8) (mulD (maxDraws k) (toDouble 0.2)) = 1"
  unfolding addD_def mulD_def maxDraws_def double_02 double_03 double_04 double_07 double_08
  apply (subst toDouble_eval[where n=55], simp, simp, simp)
  apply (subst toDouble_eval[where n=52])
  apply (simp_all add: rne_def)
  done

lemma tx_at_max: "addD (toDouble 0.3) (mulD (maxDraws k) (toDouble 0.4)) = toDouble 0.7"
  unfolding addD_def mulD_def maxDraws_def double_02 double_03 double_04 double_07 double_08
  apply (subst toDouble_eval[where n=54], simp, simp, simp)
  apply (subst toDouble_eval[where n=53])
  apply (simp_all add: rne_def)
  done

text \<open>The classification of a list of lines, with the draw each magnitude comes from.\<close>

lemma classify_lines:
  "classify rnd (JArr (map JStr ls)) = Inr
    (if mentions ls [''Instruction: Burn''] then (BURN, 0.5)
     else if mentions ls [''Instruction: MintTo'', ''InitializeMint''] then (MINT, 0.5)
     else if mentions ls [''Program log: Instruction: Swap'', ''ArbInstruction'']
       then (MEV, addD (toDouble 0.6)
                    (mulD (rnd (if mentions ls [''Instruction: Transfer'']
                                   \<and> mentions ls [''1000000000''] then 2 else 1))
                       (toDouble 0.4)))
     else if mentions ls [''Instruction: Transfer''] \<and> mentions ls [''1000000000'']
       then (WHALE, addD (toDouble 0.8) (mulD (rnd 1) (toDouble 0.2)))
     else (TRANSACTION, addD (toDouble 0.3) (mulD (rnd 0) (toDouble 0.4))))"
  by (simp add: classify_def some_isTransfer some_isLarge some_isSwap some_isMint some_isBurn
      bindE_def Let_def numeral_2_eq_2)

text \<open>
  Claim C2 as stated fails: the ranges of the magnitudes are not open at the upper end.
  At the draw \<open>1 - 2^-52\<close>, a double in \<open>[0, 1)\<close>, a message with a transfer line and
  the marker is \<open>whale\<close> with the magnitude 1.0, and a message that matches no rule is
  \<open>tx\<close> with the magnitude that is the double 0.7.
\<close>

theorem half_open_counterexample:
  "0 \<le> maxDraws 1 \<and> maxDraws 1 < 1 \<and> toDouble (maxDraws 1) = maxDraws 1 \<and>
   mentions whaleLogs [''Instruction: Transfer''] \<and> mentions whaleLogs [''1000000000''] \<and>
   classify maxDraws (JArr (map JStr whaleLogs)) = Inr (WHALE, 1) \<and>
   classify maxDraws (JArr (map JStr [])) = Inr (TRANSACTION, toDouble 0.7)"
proof -
  have c: "\<not> mentions whaleLogs [''Instruction: Burn'']"
    unfolding mentions_def whaleLogs_def by code_simp
  have d: "\<not> mentions whaleLogs [''Instruction: MintTo'', ''InitializeMint'']"
    unfolding mentions_def whaleLogs_def by code_simp
  have e: "\<not> mentions whaleLogs [''Program log: Instruction: Swap'', ''ArbInstruction'']"
    unfolding mentions_def whaleLogs_def by code_simp
  have f: "mentions whaleLogs [''Instruction: Transfer'']"
    unfolding mentions_def whaleLogs_def by code_simp
  have g: "mentions whaleLogs [''1000000000'']"
    unfolding mentions_def whaleLogs_def by code_simp
  have whale: "classify maxDraws (JArr (map JStr whaleLogs)) = Inr (WHALE, 1)"
    by (simp only: classify_lines c d e f g if_True if_False simp_thms whale_at_max)
  have none: "\<not> mentions [] pats" for pats
    by (simp add: mentions_def)
  have tx: "classify maxDraws (JArr (map JStr [])) = Inr (TRANSACTION, toDouble 0.7)"
    by (simp only: classify_lines none if_False simp_thms tx_at_max)
  show ?thesis
    by (intro conjI maxDraws_range maxDraws_double f g whale tx)
qed

text \<open>
  Claim C2, amended. For every sequence of log lines, and draws in \<open>[0, 1)\<close>, the last
  matching rule decides. A message with a burn line is \<open>burn\<close>, also when it has a mint
  line; without a burn line, a mint line makes it \<open>mint\<close>; both with the magnitude 0.5.
  Without either, a swap or arbitrage line makes it \<open>mev\<close>, with a magnitude from the
  double 0.6 to 1.0; without any of these, a transfer line together with the large-amount
  marker makes it \<open>whale\<close>, with a magnitude from the double 0.8 to 1.0; a message
  matching no rule is \<open>tx\<close>, with a magnitude from the double 0.3 to the double 0.7.
  The ends of the three ranges are included.
\<close>

theorem classify_priority:
  assumes "\<forall>k. 0 \<le> rnd k \<and> rnd k < 1"
  shows
   "(mentions ls [''Instruction: Burn''] \<longrightarrow>
       classify rnd (JArr (map JStr ls)) = Inr (BURN, 0.5)) \<and>
    (\<not> mentions ls [''Instruction: Burn''] \<and>
     mentions ls [''Instruction: MintTo'', ''InitializeMint''] \<longrightarrow>
       classify rnd (JArr (map JStr ls)) = Inr (MINT, 0.5)) \<and>
    (\<not> mentions ls [''Instruction: Burn''] \<and>
     \<not> mentions ls [''Instruction: MintTo'', ''InitializeMint''] \<and>
     mentions ls [''Program log: Instruction: Swap'', ''ArbInstruction''] \<longrightarrow>
       (\<exists>m. classify rnd (JArr (map JStr ls)) = Inr (MEV, m)
            \<and> toDouble 0.6 \<le> m \<and> m \<le> 1)) \<and>
    (\<not> mentions ls [''Instruction: Burn''] \<and>
     \<not> mentions ls [''Instruction: MintTo'', ''InitializeMint''] \<and>
     \<not> mentions ls [''Program log: Instruction: Swap'', ''ArbInstruction''] \<and>
     mentions ls [''Instruction: Transfer''] \<and> mentions ls [''1000000000''] \<longrightarrow>
       (\<exists>m. classify rnd (JArr (map JStr ls)) = Inr (WHALE, m)
            \<and> toDouble 0.8 \<le> m \<and> m \<le> 1)) \<and>
    (\<not> mentions ls [''Instruction: Burn''] \<and>
     \<not> mentions ls [''Instruction: MintTo'', ''InitializeMint''] \<and>
     \<not> mentions ls [''Program log: Instruction: Swap'', ''ArbInstruction''] \<and>
     \<not> (mentions ls [''Instruction: Transfer''] \<and> mentions ls [''1000000000'']) \<longrightarrow>
       (\<exists>m. classify rnd (JArr (map JStr ls)) = Inr (TRANSACTION, m)
            \<and> toDouble 0.3 \<le> m \<and> m \<le> toDouble 0.7))"
proof -
  have r: "0 \<le> rnd k" "rnd k < 1" for k
    using assms by auto
  show ?thesis
    using whale_magnitude[OF r, of 1] mev_magnitude[OF r, of 1] mev_magnitude[OF r, of 2]
      tx_magnitude[OF r, of 0]
    by (auto simp: classify_lines)
qed

text \<open>
  Claim C2, amended, on a message with a mint line and a burn line, which is \<open>burn\<close>,
  and on one with a transfer line and the marker, which is \<open>whale\<close>; every draw is
  \<open>1/2\<close>.
\<close>

theorem classify_priority_witness:
  "(\<forall>k. 0 \<le> random rt0 k \<and> random rt0 k < 1) \<and>
   mentions mintBurnLogs [''Instruction: MintTo'', ''InitializeMint''] \<and>
   mentions mintBurnLogs [''Instruction: Burn''] \<and>
   classify (random rt0) (JArr (map JStr mintBurnLogs)) = Inr (BURN, 0.5) \<and>
   mentions whaleLogs [''Instruction: Transfer''] \<and>
   mentions whaleLogs [''1000000000''] \<and>
   (\<exists>m. classify (random rt0) (JArr (map JStr whaleLogs)) = Inr (WHALE, m)
      \<and> toDouble 0.8 \<le> m \<and> m \<le> 1)"
proof -
  have r: "\<forall>k. 0 \<le> random rt0 k \<and> random rt0 k < 1"
    by (simp add: rt0_def)
  have a: "mentions mintBurnLogs [''Instruction: Burn'']"
    unfolding mentions_def mintBurnLogs_def by code_simp
  have b: "mentions mintBurnLogs [''Instruction: MintTo'', ''InitializeMint'']"
    unfolding mentions_def mintBurnLogs_def by code_simp
  have c: "\<not> mentions whaleLogs [''Instruction: Burn'']"
    unfolding mentions_def whaleLogs_def by code_simp
  have d: "\<not> mentions whaleLogs [''Instruction: MintTo'', ''InitializeMint'']"
    unfolding mentions_def whaleLogs_def by code_simp
  have e: "\<not> mentions whaleLogs [''Program log: Instruction: Swap'', ''ArbInstruction'']"
    unfolding mentions_def whaleLogs_def by code_simp
  have f: "mentions whaleLogs [''Instruction: Transfer'']"
    unfolding mentions_def whaleLogs_def by code_simp
  have g: "mentions whaleLogs [''1000000000'']"
    unfolding mentions_def whaleLogs_def by code_simp
  have burn: "classify (random rt0) (JArr (map JStr mintBurnLogs)) = Inr (BURN, 0.5)"
    using classify_priority[OF r, of mintBurnLogs] a by simp
  have whale: "\<exists>m. classify (random rt0) (JArr (map JStr whaleLogs)) = Inr (WHALE, m)
      \<and> toDouble 0.8 \<le> m \<and> m \<le> 1"
    using classify_priority[OF r, of whaleLogs] c d e f g by simp
  show ?thesis
    using r a b f g burn whale by simp
qed

section \<open>Messages without the expected fields\<close>

lemma resultValue_absent:
  "map_of kvs (js ''params'') = None \<Longrightarrow> resultValue (JObj kvs) = JUndefined"
  by (simp add: resultValue_def optField_def)

text \<open>
  Claim C9. When the payload of a message does not parse, or the parsed value has no
  truthy \<^verbatim>\<open>params.result.value\<close> (in particular when one of the three fields is
  absent, which makes the chain \<^verbatim>\<open>undefined\<close>), the message handler leaves the
  state as it is: no event is delivered, the event counter and the time of the last
  event keep their values, and no exception is recorded as uncaught. The same holds of
  the message event as a whole.
\<close>

theorem malformed_message_skipped:
  assumes "parse payload = None \<or> (\<exists>d. parse payload = Some d \<and> \<not> truthy (resultValue d))"
  shows "onmessageHandler parse rt payload w = w \<and> wsMessage parse rt i payload w = w"
  using assms by (auto simp: onmessageHandler_def wsMessage_def handleMessage_def)

text \<open>
  Claim C9 on a live feed, for a payload that does not parse and for one that parses
  to an object without \<^verbatim>\<open>result\<close>.
\<close>

theorem malformed_message_skipped_witness:
  "parse0 (js ''{\"params\":{}}'') = Some (JObj [(js ''params'', JObj [])]) \<and>
   \<not> truthy (resultValue (JObj [(js ''params'', JObj [])])) \<and>
   parse0 (js ''not json'') = None \<and>
   wsMessage parse0 rt0 0 (js ''{\"params\":{}}'') live0 = live0 \<and>
   wsMessage parse0 rt0 0 (js ''not json'') live0 = live0"
proof -
  have a: "parse0 (js ''{\"params\":{}}'') = Some (JObj [(js ''params'', JObj [])])"
    by (simp add: parse0_def)
  have b: "\<not> truthy (resultValue (JObj [(js ''params'', JObj [])]))"
    by (simp add: resultValue_def optField_def js_def)
  have c: "parse0 (js ''not json'') = None"
    by (simp add: parse0_def js_def)
  show ?thesis
    using a b c malformed_message_skipped[of parse0 "js ''{\"params\":{}}''" rt0 live0 0]
      malformed_message_skipped[of parse0 "js ''not json''" rt0 live0 0]
    by simp
qed

section \<open>The bands of the demo loop\<close>

lemma demoEvent_type: "fst (demoEvent rand rnd) = demoType rand"
  by (simp add: demoEvent_def demoType_def)

lemma demoType_eq:
  "demoType rand =
    (if rand < 0.005 then WHALE else if rand < 0.025 then MEV
     else if rand < 0.04 then MINT else if rand < 0.05 then BURN else TRANSACTION)"
  by (simp add: demoEvent_def demoType_def)

lemma bands:
  "band WHALE = {0..<0.005}" "band MEV = {0.005..<0.025}" "band MINT = {0.025..<0.04}"
  "band BURN = {0.04..<0.05}" "band TRANSACTION = {0.05..<1}"
  by (auto simp: band_def demoType_eq split: if_splits)

lemma widths:
  "bandWidth WHALE = 0.005" "bandWidth MEV = 0.02" "bandWidth MINT = 0.015"
  "bandWidth BURN = 0.01" "bandWidth TRANSACTION = 0.95"
  by (simp_all add: bandWidth_def bands)

text \<open>
  Claim C7 as stated fails: the draws that become \<open>tx\<close> are a part of the range of
  length 0.95, which is less than 0.995.
\<close>

theorem tx_band_counterexample: "\<not> (0.995 \<le> bandWidth TRANSACTION)"
  by (simp add: widths)

text \<open>
  Claim C7, amended. The type depends on the first draw only. The draws in
  \<open>[0, 0.005)\<close> become \<open>whale\<close>, those in \<open>[0.005, 0.025)\<close> \<open>mev\<close>, those in
  \<open>[0.025, 0.04)\<close> \<open>mint\<close>, those in \<open>[0.04, 0.05)\<close> \<open>burn\<close> and those in
  \<open>[0.05, 1)\<close> \<open>tx\<close>: \<open>tx\<close> has 0.95 of the range, \<open>whale\<close> has exactly 0.005 and is
  the rarest, and \<open>mev\<close>, \<open>mint\<close>, \<open>burn\<close> have 0.02, 0.015 and 0.01, strictly
  decreasing in that order.
\<close>

theorem demo_bands:
  "fst (demoEvent rand rnd) = demoType rand \<and>
   band WHALE = {0..<0.005} \<and> band MEV = {0.005..<0.025} \<and> band MINT = {0.025..<0.04} \<and>
   band BURN = {0.04..<0.05} \<and> band TRANSACTION = {0.05..<1} \<and>
   bandWidth TRANSACTION = 0.95 \<and> bandWidth WHALE = 0.005 \<and>
   bandWidth MEV = 0.02 \<and> bandWidth MINT = 0.015 \<and> bandWidth BURN = 0.01 \<and>
   bandWidth WHALE < bandWidth BURN \<and> bandWidth BURN < bandWidth MINT \<and>
   bandWidth MINT < bandWidth MEV \<and> bandWidth MEV < bandWidth TRANSACTION"
  by (simp add: demoEvent_type bands widths)

text \<open>Claim C7, amended, at the draw \<open>1/2\<close>, which becomes \<open>tx\<close>.\<close>

theorem demo_bands_witness:
  "fst (demoEvent (1 / 2) (random rt0)) = TRANSACTION \<and> (1 / 2 :: real) \<in> band TRANSACTION"
  using demo_bands[of "1 / 2" "random rt0"] by (simp add: demoType_eq)

section \<open>The invariant of the feed\<close>

lemma list_all_update: "list_all P xs \<Longrightarrow> P v \<Longrightarrow> list_all P (xs[i := v])"
  by (induction xs arbitrary: i) (auto split: nat.splits)

lemma list_all_nth: "list_all P xs \<Longrightarrow> i < length xs \<Longrightarrow> P (xs ! i)"
  by (simp add: list_all_length)

lemma wired_update [simp]:
  "wired (s\<lparr>readyState := st\<rparr>) = wired s" "wired (s\<lparr>sent := n\<rparr>) = wired s"
  by (simp_all add: wired_def)

lemma filter_remove_nth:
  assumes "k < length ts"
  shows "length (filter P (take k ts @ drop (Suc k) ts)) =
         length (filter P ts) - (if P (ts ! k) then 1 else 0)"
proof -
  have "ts = take k ts @ ts ! k # drop (Suc k) ts" using assms by (rule id_take_nth_drop)
  then have "length (filter P ts) = length (filter P (take k ts @ ts ! k # drop (Suc k) ts))" by simp
  then show ?thesis by simp
qed

lemma inv_new: "feedInv (newFeed key)"
  by (simp add: feedInv_def newFeed_def demoTimers_def)

lemma inv_startDemoMode: "feedInv w \<Longrightarrow> feedInv (startDemoMode rnd w)"
  by (auto simp: feedInv_def startDemoMode_def scheduleNext_def demoTimers_def)

lemma inv_connect: "feedInv w \<Longrightarrow> feedInv (connect ok rnd w)"
  unfolding connect_def
  by (auto simp: inv_startDemoMode split: option.splits)
     (auto simp: feedInv_def demoTimers_def validKey_def wired_def)

lemma inv_setReadyState: "feedInv w \<Longrightarrow> i < length (sockets w) \<Longrightarrow> feedInv (setReadyState i st w)"
  by (auto simp: feedInv_def setReadyState_def demoTimers_def list_all_update list_all_nth)

lemma inv_close: "feedInv w \<Longrightarrow> j < length (sockets w) \<Longrightarrow> feedInv (close j w)"
  by (simp add: close_def inv_setReadyState)

lemma inv_connected: "feedInv w \<Longrightarrow> feedInv (w\<lparr>connected := b\<rparr>)"
  by (simp add: feedInv_def demoTimers_def)

lemma ws_bound: "feedInv w \<Longrightarrow> ws w = Some j \<Longrightarrow> j < length (sockets w)"
  by (auto simp: feedInv_def)

lemma inv_disconnect: "feedInv w \<Longrightarrow> feedInv (disconnect w)"
  by (auto simp: disconnect_def inv_connected inv_close ws_bound split: option.splits)

lemma inv_send: "feedInv w \<Longrightarrow> j < length (sockets w) \<Longrightarrow> feedInv (send j w)"
  by (auto simp: feedInv_def send_def demoTimers_def list_all_update list_all_nth split: readyState.splits)

lemma inv_onopenHandler: "feedInv w \<Longrightarrow> feedInv (onopenHandler w)"
  using inv_send[of "w\<lparr>connected := True\<rparr>"] 
  by (auto simp: onopenHandler_def Let_def inv_connected dest: ws_bound split: option.splits)
     (auto simp: feedInv_def demoTimers_def)

lemma setReadyState_fields [simp]:
  "length (sockets (setReadyState i st w)) = length (sockets w)"
  "ws (setReadyState i st w) = ws w"
  "timers (setReadyState i st w) = timers w"
  "demoActive (setReadyState i st w) = demoActive w"
  "connected (setReadyState i st w) = connected w"
  "reconnectDelay (setReadyState i st w) = reconnectDelay w"
  "apiKey (setReadyState i st w) = apiKey w"
  by (simp_all add: setReadyState_def)

lemma inv_wsOpen: "feedInv w \<Longrightarrow> feedInv (wsOpen i w)"
  by (simp add: wsOpen_def Let_def inv_onopenHandler inv_setReadyState)

lemma inv_handleMessage: "feedInv w \<Longrightarrow> feedInv (snd (handleMessage rt d w))"
  by (auto simp: handleMessage_def Let_def feedInv_def demoTimers_def split: sum.splits prod.splits)

lemma inv_wsMessage: "feedInv w \<Longrightarrow> feedInv (wsMessage parse rt i payload w)"
  by (auto simp: wsMessage_def onmessageHandler_def inv_handleMessage split: option.splits)

lemma inv_onerrorHandler: "feedInv w \<Longrightarrow> feedInv (onerrorHandler rnd w)"
  by (auto simp: onerrorHandler_def Let_def inv_startDemoMode inv_close ws_bound split: option.splits)
     (auto simp: feedInv_def demoTimers_def)

lemma inv_wsError: "feedInv w \<Longrightarrow> feedInv (wsError rnd i w)"
  by (simp add: wsError_def inv_onerrorHandler)

lemma inv_oncloseHandler: "feedInv w \<Longrightarrow> feedInv (oncloseHandler w)"
  by (auto simp: oncloseHandler_def feedInv_def demoTimers_def)

lemma inv_wsClose: "feedInv w \<Longrightarrow> feedInv (wsClose i w)"
  by (simp add: wsClose_def Let_def inv_oncloseHandler inv_setReadyState)

lemma inv_demoTick:
  assumes "feedInv w" "length (filter isDemoTick ts) = 0"
  shows "feedInv (demoTick rt (w\<lparr>timers := ts\<rparr>))"
  using assms
  by (auto simp: demoTick_def feedInv_def demoTimers_def scheduleNext_def split: prod.splits)

lemma inv_fireTimer: 
  assumes "feedInv w" shows "feedInv (fireTimer ok rt k w)"
proof (cases "k < length (timers w)")
  case False then show ?thesis using assms by (simp add: fireTimer_def)
next
  case True
  let ?ts = "take k (timers w) @ drop (Suc k) (timers w)"
  have len: "length (filter isDemoTick ?ts) =
         length (filter isDemoTick (timers w)) - (if isDemoTick (timers w ! k) then 1 else 0)"
    using True by (rule filter_remove_nth)
  show ?thesis
  proof (cases "timers w ! k")
    case (Reconnect d)
    then have "feedInv (w\<lparr>timers := ?ts\<rparr>)"
      using assms len by (simp add: feedInv_def demoTimers_def)
    then show ?thesis using True Reconnect by (simp add: fireTimer_def inv_connect)
  next
    case (DemoTick d)
    then have "isDemoTick (timers w ! k)" by simp
    then have "timers w ! k \<in> set (filter isDemoTick (timers w))" using True by simp
    then have pos: "0 < length (filter isDemoTick (timers w))" by (metis length_pos_if_in_set)
    then have act: "demoActive w" "length (filter isDemoTick (timers w)) = 1"
      using assms by (auto simp: feedInv_def demoTimers_def split: if_splits)
    then have "length (filter isDemoTick ?ts) = 0" using len DemoTick by simp
    then have "feedInv (demoTick rt (w\<lparr>timers := ?ts\<rparr>))"
      using assms by (intro inv_demoTick) simp_all
    then show ?thesis using True DemoTick by (simp add: fireTimer_def)
  qed
qed

lemma reachable_inv: "reachable w \<Longrightarrow> feedInv w"
  by (induction rule: reachable.induct)
     (simp_all add: inv_new inv_connect inv_disconnect inv_wsOpen inv_wsMessage inv_wsError
        inv_wsClose inv_fireTimer)

section \<open>The reconnect delay\<close>

lemma key_valid: "js ''key'' \<noteq> []" "js ''key'' \<noteq> js ''demo''"
  by (simp_all add: js_def)

lemma connect_key:
  "apiKey w = Some (js ''key'') \<Longrightarrow> connect True rnd w =
     w\<lparr>ws := Some (length (sockets w)),
       sockets := sockets w @
         [\<lparr>url = HELIUS_WS @ js ''key'', readyState = CONNECTING, onopen = True,
           onmessage = True, onclose = True, onerror = True, sent = 0\<rparr>]\<rparr>"
  by (simp add: connect_def key_valid)

lemmas feed_steps = newFeed_def connect_key wsClose_def wsOpen_def wsError_def setReadyState_def
  oncloseHandler_def onopenHandler_def onerrorHandler_def send_def close_def fireTimer_def
  startDemoMode_def scheduleNext_def disconnect_def Let_def rt0_def

lemma reconnectDelay_wsOpen: "reconnectDelay (wsOpen i w) = reconnectDelay w"
  by (simp add: wsOpen_def onopenHandler_def send_def setReadyState_def Let_def
      split: option.splits readyState.splits)

lemma wired_nth: "feedInv w \<Longrightarrow> i < length (sockets w) \<Longrightarrow> wired (sockets w ! i)"
  by (simp add: feedInv_def list_all_length)

lemma wsClose_effect:
  assumes "feedInv w" "i < length (sockets w)" "readyState (sockets w ! i) \<noteq> CLOSED"
  shows "wsClose i w = (setReadyState i CLOSED w)
           \<lparr>connected := False,
            timers := timers w @ [Reconnect (reconnectDelay w)],
            reconnectDelay := min (reconnectDelay w * 1.5) 30000\<rparr>"
  using assms wired_nth[OF assms(1,2)]
  by (simp add: wsClose_def Let_def oncloseHandler_def wired_def)

lemma fireTimer_last:
  "fireTimer ok rt (length ts) (w\<lparr>timers := ts @ [Reconnect d]\<rparr>)
     = connect ok (random rt) (w\<lparr>timers := ts\<rparr>)"
  by (simp add: fireTimer_def)

text \<open>
  Claim C3 as stated fails: a successful connection does not reset the delay. After one
  close the delay is 3000; the open event of the next socket sets \<open>connected\<close> and
  leaves the delay at 3000.
\<close>

theorem no_reset_counterexample:
  "reconnectDelay failedOnce = 3000 \<and> readyState (sockets failedOnce ! 1) = CONNECTING \<and>
   connected (wsOpen 1 failedOnce) \<and> reconnectDelay (wsOpen 1 failedOnce) \<noteq> 2000"
  by (simp add: failedOnce_def feed_steps)

text \<open>
  Claim C3, amended. The reconnect delay starts at 2000 ms. The open event of a socket
  leaves it as it is. In every reachable state it lies between 2000 and 30000. The
  close event of a socket that is not yet closed sets it to the smaller of 1.5 times
  its value and 30000, and schedules a timer with the delay it had before, whose firing
  is a call of \<^verbatim>\<open>connect\<close>.
\<close>

theorem reconnect_delay:
  "reconnectDelay (newFeed key) = 2000 \<and>
   reconnectDelay (wsOpen i w) = reconnectDelay w \<and>
   (reachable w \<longrightarrow> 2000 \<le> reconnectDelay w \<and> reconnectDelay w \<le> 30000) \<and>
   (reachable w \<and> i < length (sockets w) \<and> readyState (sockets w ! i) \<noteq> CLOSED \<longrightarrow>
      reconnectDelay (wsClose i w) = min (reconnectDelay w * 1.5) 30000 \<and>
      timers (wsClose i w) = timers w @ [Reconnect (reconnectDelay w)] \<and>
      fireTimer ok rt (length (timers w)) (wsClose i w)
        = connect ok (random rt) ((wsClose i w)\<lparr>timers := timers w\<rparr>))"
proof -
  have "reconnectDelay (newFeed key) = 2000"
    by (simp add: newFeed_def)
  moreover have "2000 \<le> reconnectDelay w \<and> reconnectDelay w \<le> 30000" if "reachable w"
    using reachable_inv[OF that] by (simp add: feedInv_def)
  moreover have "reconnectDelay (wsClose i w) = min (reconnectDelay w * 1.5) 30000 \<and>
      timers (wsClose i w) = timers w @ [Reconnect (reconnectDelay w)] \<and>
      fireTimer ok rt (length (timers w)) (wsClose i w)
        = connect ok (random rt) ((wsClose i w)\<lparr>timers := timers w\<rparr>)"
    if "reachable w" "i < length (sockets w)" "readyState (sockets w ! i) \<noteq> CLOSED"
    using wsClose_effect[OF reachable_inv[OF that(1)] that(2,3)]
    by (simp add: fireTimer_def)
  ultimately show ?thesis
    using reconnectDelay_wsOpen[of i w] by blast
qed

text \<open>Claim C3, amended, at the close of the first socket of a feed: 2000 becomes 3000.\<close>

theorem reconnect_delay_witness:
  "reachable (connect True (random rt0) (newFeed (Some (js ''key'')))) \<and>
   (0::nat) < length (sockets (connect True (random rt0) (newFeed (Some (js ''key''))))) \<and>
   readyState (sockets (connect True (random rt0) (newFeed (Some (js ''key'')))) ! 0) \<noteq> CLOSED \<and>
   reconnectDelay (wsClose 0 (connect True (random rt0) (newFeed (Some (js ''key''))))) = 3000 \<and>
   timers (wsClose 0 (connect True (random rt0) (newFeed (Some (js ''key''))))) = [Reconnect 2000]"
proof -
  let ?w = "connect True (random rt0) (newFeed (Some (js ''key'')))"
  have a: "reachable ?w" by (intro reachable.intros)
  have b: "0 < length (sockets ?w)" "readyState (sockets ?w ! 0) \<noteq> CLOSED"
     "reconnectDelay ?w = 2000" "timers ?w = []"
    by (simp_all add: feed_steps)
  show ?thesis
    using a b reconnect_delay[of "Some (js ''key'')" 0 ?w True rt0] by simp
qed

section \<open>The demo loop\<close>

lemma demoTick_connected:
  "connected w \<Longrightarrow> demoTick rt w = w\<lparr>demoActive := False\<rparr>"
  by (simp add: demoTick_def)

lemma connected_wsOpen:
  assumes "feedInv w" "i < length (sockets w)" "readyState (sockets w ! i) = CONNECTING"
  shows "connected (wsOpen i w)"
  using assms wired_nth[OF assms(1,2)]
  by (simp add: wsOpen_def Let_def onopenHandler_def send_def wired_def setReadyState_def
      split: option.splits readyState.splits)

lemma demoTick_disconnected:
  "\<not> connected w \<Longrightarrow> demoActive w \<Longrightarrow>
   \<exists>ev d. demoTick rt w = w\<lparr>eventCount := eventCount w + 1, lastEventMs := now rt 0,
                              delivered := delivered w @ [ev],
                              timers := timers w @ [DemoTick d]\<rparr> \<and> sig ev = JStr (js ''demo'')"
  by (auto simp: demoTick_def scheduleNext_def split: prod.splits)

lemmas feed_steps2 = feed_steps demoTick_def demoEvent_def demoTimers_def

text \<open>
  Claim C4 as stated fails. After a failed first connection the demo loop is running
  and the second socket opens: a live connection has become active, subscribed, with
  one tick of the demo loop pending. When that socket closes before the tick, the flag
  \<open>connected\<close> is cleared again, and the pending tick delivers a simulated event and
  schedules the next one: the loop has not ended. The same happens in \<open>demoLive\<close>,
  where the close event of the first socket clears the flag while the second socket is
  still open.
\<close>

theorem live_then_demo_counterexample:
  "reachable reopened \<and> connected reopened \<and> demoTimers reopened = 1 \<and>
   readyState (sockets reopened ! 1) = OPEN \<and> sent (sockets reopened ! 1) = 1 \<and>
   isDemoTick (timers (wsClose 1 reopened) ! 0) \<and>
   delivered (wsClose 1 reopened) = [] \<and>
   length (delivered (fireTimer True rt0 0 (wsClose 1 reopened))) = 1 \<and>
   demoTimers (fireTimer True rt0 0 (wsClose 1 reopened)) = 1 \<and>
   demoActive (fireTimer True rt0 0 (wsClose 1 reopened)) \<and>
   connected demoLive \<and> demoTimers demoLive = 1 \<and>
   readyState (sockets (wsClose 0 demoLive) ! 1) = OPEN \<and>
   length (delivered (fireTimer True rt0 0 (wsClose 0 demoLive))) = 1 \<and>
   demoTimers (fireTimer True rt0 0 (wsClose 0 demoLive)) = 1"
proof -
  have a: "reachable reopened"
    unfolding reopened_def by (intro reachable.intros)
  have b: "connected reopened" "demoTimers reopened = 1"
    "readyState (sockets reopened ! 1) = OPEN" "sent (sockets reopened ! 1) = 1"
    by (simp_all add: reopened_def feed_steps2)
  have c: "isDemoTick (timers (wsClose 1 reopened) ! 0)" "delivered (wsClose 1 reopened) = []"
    by (simp_all add: reopened_def feed_steps2)
  have d: "length (delivered (fireTimer True rt0 0 (wsClose 1 reopened))) = 1"
    "demoTimers (fireTimer True rt0 0 (wsClose 1 reopened)) = 1"
    "demoActive (fireTimer True rt0 0 (wsClose 1 reopened))"
    by (simp_all add: reopened_def feed_steps2)
  have e: "connected demoLive" "demoTimers demoLive = 1"
    "readyState (sockets (wsClose 0 demoLive) ! 1) = OPEN"
    "length (delivered (fireTimer True rt0 0 (wsClose 0 demoLive))) = 1"
    "demoTimers (fireTimer True rt0 0 (wsClose 0 demoLive)) = 1"
    by (simp_all add: demoLive_def feed_steps2)
  show ?thesis
    by (intro conjI a b c d e)
qed

text \<open>
  Claim C4, amended. In every reachable state at most one timer of the demo loop is
  pending, so at most one loop is scheduling itself. The open event of a connecting
  socket sets \<open>connected\<close> and leaves that timer pending. When the pending timer fires
  while \<open>connected\<close> is still set, no event is delivered and the event counter keeps
  its value, no timer of the demo loop is left, and \<open>demoActive\<close> is cleared: the loop
  has ended after that one tick. When it fires after \<open>connected\<close> has been cleared
  again, one more event is delivered and counted and the loop goes on with one timer.
\<close>

theorem demo_loop_exclusive:
  assumes "reachable w"
  shows "demoTimers w \<le> 1 \<and>
    (i < length (sockets w) \<and> readyState (sockets w ! i) = CONNECTING \<longrightarrow>
       connected (wsOpen i w) \<and> demoTimers (wsOpen i w) = demoTimers w) \<and>
    (connected w \<and> k < length (timers w) \<and> isDemoTick (timers w ! k) \<longrightarrow>
       delivered (fireTimer ok rt k w) = delivered w \<and>
       eventCount (fireTimer ok rt k w) = eventCount w \<and>
       demoTimers (fireTimer ok rt k w) = 0 \<and>
       \<not> demoActive (fireTimer ok rt k w)) \<and>
    (\<not> connected w \<and> k < length (timers w) \<and> isDemoTick (timers w ! k) \<longrightarrow>
       length (delivered (fireTimer ok rt k w)) = length (delivered w) + 1 \<and>
       eventCount (fireTimer ok rt k w) = eventCount w + 1 \<and>
       demoTimers (fireTimer ok rt k w) = 1 \<and>
       demoActive (fireTimer ok rt k w))"
proof -
  have inv: "feedInv w" using assms by (rule reachable_inv)
  then have one: "demoTimers w \<le> 1" by (simp add: feedInv_def)
  have rest: "length (filter isDemoTick (take k (timers w) @ drop (Suc k) (timers w))) = 0
              \<and> demoActive w"
    if k: "k < length (timers w)" and d: "isDemoTick (timers w ! k)"
  proof -
    have "timers w ! k \<in> set (filter isDemoTick (timers w))" using k d by simp
    then have "0 < demoTimers w" unfolding demoTimers_def by (metis length_pos_if_in_set)
    then have "demoActive w" "demoTimers w = 1"
      using inv by (auto simp: feedInv_def split: if_splits)
    then show ?thesis
      using filter_remove_nth[OF k, of isDemoTick] d by (simp add: demoTimers_def)
  qed
  have opened: "connected (wsOpen i w) \<and> demoTimers (wsOpen i w) = demoTimers w"
    if "i < length (sockets w)" "readyState (sockets w ! i) = CONNECTING"
  proof -
    have "timers (wsOpen i w) = timers w"
      by (simp add: wsOpen_def Let_def onopenHandler_def send_def setReadyState_def
          split: option.splits readyState.splits)
    then show ?thesis using connected_wsOpen[OF inv that] by (simp add: demoTimers_def)
  qed
  have tick: "delivered (fireTimer ok rt k w) = delivered w \<and>
       eventCount (fireTimer ok rt k w) = eventCount w \<and>
       demoTimers (fireTimer ok rt k w) = 0 \<and>
       \<not> demoActive (fireTimer ok rt k w)"
    if c: "connected w" and k: "k < length (timers w)" and d: "isDemoTick (timers w ! k)"
  proof -
    obtain dl where t: "timers w ! k = DemoTick dl" using d by (cases "timers w ! k") auto
    have f: "fireTimer ok rt k w
               = w\<lparr>timers := take k (timers w) @ drop (Suc k) (timers w), demoActive := False\<rparr>"
      using k t c by (simp add: fireTimer_def demoTick_connected)
    show ?thesis using rest[OF k d] by (simp add: f demoTimers_def)
  qed
  have tock: "length (delivered (fireTimer ok rt k w)) = length (delivered w) + 1 \<and>
       eventCount (fireTimer ok rt k w) = eventCount w + 1 \<and>
       demoTimers (fireTimer ok rt k w) = 1 \<and>
       demoActive (fireTimer ok rt k w)"
    if c: "\<not> connected w" and k: "k < length (timers w)" and d: "isDemoTick (timers w ! k)"
  proof -
    obtain dl where t: "timers w ! k = DemoTick dl" using d by (cases "timers w ! k") auto
    let ?w1 = "w\<lparr>timers := take k (timers w) @ drop (Suc k) (timers w)\<rparr>"
    have f: "fireTimer ok rt k w = demoTick rt ?w1"
      using k t by (simp add: fireTimer_def)
    obtain ev d' where e: "demoTick rt ?w1 = ?w1\<lparr>eventCount := eventCount ?w1 + 1,
         lastEventMs := now rt 0, delivered := delivered ?w1 @ [ev],
         timers := timers ?w1 @ [DemoTick d']\<rparr>"
      using demoTick_disconnected[of ?w1 rt] c rest[OF k d] by auto
    show ?thesis using rest[OF k d] by (simp add: f e demoTimers_def)
  qed
  show ?thesis using one opened tick tock by blast
qed

text \<open>
  Claim C4, amended, on a feed whose demo loop was started by an error and whose next
  socket has opened: one tick is pending, and its firing ends the loop.
\<close>

theorem demo_loop_exclusive_witness:
  "reachable demoLive \<and> connected demoLive \<and> demoTimers demoLive = 1 \<and>
   (0::nat) < length (timers demoLive) \<and> isDemoTick (timers demoLive ! 0) \<and>
   delivered (fireTimer True rt0 0 demoLive) = delivered demoLive \<and>
   demoTimers (fireTimer True rt0 0 demoLive) = 0 \<and>
   \<not> demoActive (fireTimer True rt0 0 demoLive)"
proof -
  have a: "reachable demoLive"
    unfolding demoLive_def by (intro reachable.intros)
  have b: "connected demoLive" "demoTimers demoLive = 1" "0 < length (timers demoLive)"
    "isDemoTick (timers demoLive ! 0)"
    by (simp_all add: demoLive_def feed_steps demoTimers_def)
  show ?thesis
    using a b demo_loop_exclusive[OF a, of 0 0 True rt0] by simp
qed

section \<open>Disconnecting\<close>

text \<open>
  Claim C10. In a reachable state with an open current socket, \<^verbatim>\<open>disconnect()\<close>
  clears \<open>connected\<close> and starts closing the socket; the close handler stays assigned
  and no timer is cancelled. The close event of the socket then schedules a timer with
  the current reconnect delay whose firing is a call of \<^verbatim>\<open>connect\<close>, and when the
  constructor of the socket returns, that call makes a new connecting socket the
  current one.
\<close>

theorem disconnect_reconnects:
  assumes "reachable w" "connected w" "ws w = Some i" "readyState (sockets w ! i) = OPEN"
  shows "\<not> connected (disconnect w) \<and>
     readyState (sockets (disconnect w) ! i) = CLOSING \<and>
     onclose (sockets (disconnect w) ! i) \<and>
     timers (disconnect w) = timers w \<and>
     timers (wsClose i (disconnect w)) = timers w @ [Reconnect (reconnectDelay w)] \<and>
     fireTimer ok rt (length (timers w)) (wsClose i (disconnect w))
       = connect ok (random rt) ((wsClose i (disconnect w))\<lparr>timers := timers w\<rparr>) \<and>
     ws (fireTimer True rt (length (timers w)) (wsClose i (disconnect w)))
       = Some (length (sockets w)) \<and>
     readyState (sockets (fireTimer True rt (length (timers w)) (wsClose i (disconnect w)))
        ! length (sockets w)) = CONNECTING"
proof -
  have inv: "feedInv w" using assms(1) by (rule reachable_inv)
  have i: "i < length (sockets w)" using inv assms(3) by (rule ws_bound)
  have w: "wired (sockets w ! i)" using inv i by (rule wired_nth)
  have key: "validKey (apiKey w)" using inv i by (auto simp: feedInv_def)
  have d: "disconnect w = (setReadyState i CLOSING w)\<lparr>connected := False\<rparr>"
    using assms by (simp add: disconnect_def close_def)
  have dinv: "feedInv (disconnect w)" using inv by (rule inv_disconnect)
  have di: "i < length (sockets (disconnect w))" using i by (simp add: d)
  have dst: "readyState (sockets (disconnect w) ! i) = CLOSING"
    using i by (simp add: d setReadyState_def)
  then have dnc: "readyState (sockets (disconnect w) ! i) \<noteq> CLOSED" by simp
  note c = wsClose_effect[OF dinv di dnc]
  have dt: "timers (disconnect w) = timers w" "reconnectDelay (disconnect w) = reconnectDelay w"
    "apiKey (disconnect w) = apiKey w" "length (sockets (disconnect w)) = length (sockets w)"
    by (simp_all add: d)
  have fire: "fireTimer ok' rt (length (timers w)) (wsClose i (disconnect w))
       = connect ok' (random rt) ((wsClose i (disconnect w))\<lparr>timers := timers w\<rparr>)" for ok'
    by (simp add: c dt fireTimer_def)
  have conn: "ws (connect True rnd v) = Some (length (sockets v)) \<and>
      readyState (sockets (connect True rnd v) ! length (sockets v)) = CONNECTING"
    if "validKey (apiKey v)" for v rnd
    using that by (auto simp: connect_def validKey_def split: option.splits)
  have "\<not> connected (disconnect w)" by (simp add: d)
  moreover have "onclose (sockets (disconnect w) ! i)"
    using w i by (simp add: d setReadyState_def wired_def)
  moreover have "timers (wsClose i (disconnect w)) = timers w @ [Reconnect (reconnectDelay w)]"
    by (simp add: c dt)
  moreover have "ws (fireTimer True rt (length (timers w)) (wsClose i (disconnect w)))
       = Some (length (sockets w)) \<and>
     readyState (sockets (fireTimer True rt (length (timers w)) (wsClose i (disconnect w)))
        ! length (sockets w)) = CONNECTING"
    using conn[of "(wsClose i (disconnect w))\<lparr>timers := timers w\<rparr>" "random rt"] key
    by (simp add: fire) (simp add: c dt)
  ultimately show ?thesis using dst dt(1) fire[of ok] by simp
qed

text \<open>Claim C10 on a live feed with one socket: the reconnect makes a second one.\<close>

theorem disconnect_reconnects_witness:
  "reachable live0 \<and> connected live0 \<and> ws live0 = Some 0 \<and>
   readyState (sockets live0 ! 0) = OPEN \<and>
   \<not> connected (disconnect live0) \<and>
   timers (wsClose 0 (disconnect live0)) = [Reconnect 2000] \<and>
   ws (fireTimer True rt0 0 (wsClose 0 (disconnect live0))) = Some 1 \<and>
   readyState (sockets (fireTimer True rt0 0 (wsClose 0 (disconnect live0))) ! 1) = CONNECTING"
proof -
  have a: "reachable live0"
    unfolding live0_def by (intro reachable.intros)
  have b: "connected live0" "ws live0 = Some 0" "readyState (sockets live0 ! 0) = OPEN"
    "timers live0 = []" "reconnectDelay live0 = 2000" "length (sockets live0) = 1"
    by (simp_all add: live0_def feed_steps)
  have c: "\<not> connected (disconnect live0)"
    "timers (wsClose 0 (disconnect live0)) = timers live0 @ [Reconnect (reconnectDelay live0)]"
    "ws (fireTimer True rt0 (length (timers live0)) (wsClose 0 (disconnect live0)))
       = Some (length (sockets live0))"
    "readyState (sockets (fireTimer True rt0 (length (timers live0)) (wsClose 0 (disconnect live0)))
        ! length (sockets live0)) = CONNECTING"
    using disconnect_reconnects[OF a b(1,2,3), of True rt0] by blast+
  show ?thesis
    using a b(1,2,3) c[unfolded b] by simp
qed

section \<open>The particle simulation\<close>

text \<open>Every exception of the particle loop is a \<open>TypeError\<close>.\<close>

lemma elementAt_error: "elementAt xs i = Inl e \<Longrightarrow> e = TypeError"
  by (simp add: elementAt_def split: if_splits)

lemma updateParticle_error: "updateParticle rnd ps t p k = Inl e \<Longrightarrow> e = TypeError"
  by (auto simp: updateParticle_def Let_def dest: elementAt_error split: option.splits sum.splits if_splits)

text \<open>A particle without \<open>homeNode\<close> stops \<^verbatim>\<open>update\<close>, wherever it is in the array.\<close>

lemma updateParticle_homeless: "homeNode p = None \<Longrightarrow> updateParticle rnd ps t p k = Inl TypeError"
  by (simp add: updateParticle_def)

lemma updateParticles_homeless:
  "\<exists>p \<in> set pts. homeNode p = None \<Longrightarrow> updateParticles rnd ps t pts k = Inl TypeError"
proof (induction pts arbitrary: k)
  case Nil
  then show ?case by simp
next
  case (Cons p pts)
  show ?case
  proof (cases "updateParticle rnd ps t p k")
    case (Inl e)
    then show ?thesis using updateParticle_error[OF Inl] by simp
  next
    case (Inr r)
    then have "homeNode p \<noteq> None" using updateParticle_homeless[of p rnd ps t k] by auto
    with Cons.prems have "\<exists>q \<in> set pts. homeNode q = None" by auto
    then have "updateParticles rnd ps t pts (snd r) = Inl TypeError" by (rule Cons.IH)
    then show ?thesis using Inr by (cases r) simp
  qed
qed

lemma update_homeless:
  "\<exists>p \<in> set (particles ps). homeNode p = None \<Longrightarrow> update rt ps = Inl TypeError"
  by (simp add: update_def Let_def updateParticles_homeless)

text \<open>
  The constructor succeeds when there is a node, and gives every particle a home among
  the scaled nodes; \<^verbatim>\<open>update\<close> succeeds on such particles.
\<close>

lemma mapE_total:
  "(\<And>v. v \<in> set vs \<Longrightarrow> \<exists>u. f v = Inr u) \<Longrightarrow> \<exists>us. mapE f vs = Inr us \<and> length us = length vs"
proof (induction vs)
  case Nil then show ?case by simp
next
  case (Cons v vs)
  then obtain u where u: "f v = Inr u" by auto
  from Cons obtain us where "mapE f vs = Inr us \<and> length us = length vs" by auto
  with u show ?case by simp
qed

lemma mapE_all:
  "mapE f vs = Inr us \<Longrightarrow> (\<And>v u. f v = Inr u \<Longrightarrow> P u) \<Longrightarrow> \<forall>u \<in> set us. P u"
  by (induction vs arbitrary: us) (auto split: sum.splits)

lemma initParticle_ok:
  "sns \<noteq> [] \<Longrightarrow> \<exists>p. initParticle rnd sns i = Inr p"
  by (simp add: initParticle_def Let_def)

lemma initParticle_home:
  "initParticle rnd sns i = Inr p \<Longrightarrow> \<exists>h. homeNode p = Some h \<and> h < length sns"
  by (auto simp: initParticle_def Let_def split: if_splits)

lemma newParticleSystem_ok:
  assumes "nodes prm \<noteq> []"
  shows "\<exists>ps. newParticleSystem rt cv prm = Inr ps \<and> params ps = prm \<and> canvas ps = cv
           \<and> length (particles ps) = nat (particleCount prm)
           \<and> (\<forall>p \<in> set (particles ps). \<exists>h. homeNode p = Some h \<and> h < length (scaledNodes ps))"
proof -
  let ?sns = "map (scaleNode cv) (nodes prm)"
  let ?is = "[0..<nat (particleCount prm)]"
  have ne: "?sns \<noteq> []" using assms by simp
  obtain pts where pts: "mapE (initParticle (random rt) ?sns) ?is = Inr pts"
      "length pts = length ?is"
    using mapE_total[of ?is "initParticle (random rt) ?sns"] initParticle_ok[OF ne] by blast
  have home: "\<forall>p \<in> set pts. \<exists>h. homeNode p = Some h \<and> h < length ?sns"
    using mapE_all[OF pts(1), of "\<lambda>p. \<exists>h. homeNode p = Some h \<and> h < length ?sns"]
      initParticle_home by blast
  show ?thesis
    using pts home by (simp add: newParticleSystem_def initParticles_def Let_def)
qed

lemma updateParticle_ok:
  assumes "homeNode p = Some h" "h < length (scaledNodes ps)"
  shows "\<exists>r. updateParticle rnd ps t p k = Inr r"
  using assms by (simp add: updateParticle_def elementAt_def Let_def)

lemma updateParticles_ok:
  "\<forall>p \<in> set pts. \<exists>h. homeNode p = Some h \<and> h < length (scaledNodes ps) \<Longrightarrow>
   \<exists>r. updateParticles rnd ps t pts k = Inr r"
proof (induction pts arbitrary: k)
  case Nil
  then show ?case by simp
next
  case (Cons p pts)
  then obtain h where "homeNode p = Some h" "h < length (scaledNodes ps)" by auto
  then obtain p1 k1 where a: "updateParticle rnd ps t p k = Inr (p1, k1)"
    using updateParticle_ok[of p h ps rnd t k] by (metis surj_pair)
  from Cons obtain r where "updateParticles rnd ps t pts k1 = Inr r" by fastforce
  with a show ?case by simp
qed

lemma update_ok:
  "\<forall>p \<in> set (particles ps). \<exists>h. homeNode p = Some h \<and> h < length (scaledNodes ps) \<Longrightarrow>
   \<exists>ps1. update rt ps = Inr ps1"
  using updateParticles_ok[of "particles ps" ps "random rt" "time ps + 0.008" 0]
  by (auto simp: update_def Let_def)

text \<open>A \<open>mint\<close> effect appends one particle, and that particle has no \<open>homeNode\<close>.\<close>

lemma handleLiveEvent_mint:
  assumes "nodes (params ps) \<noteq> []" "0 \<le> random rt 0" "random rt 0 < 1" "type eff = MINT"
  shows "\<exists>ps1 p. handleLiveEvent rt eff ps = Inr ps1 \<and> particles ps1 = particles ps @ [p]
           \<and> homeNode p = None"
proof -
  let ?n = "real (length (nodes (params ps)))"
  have n: "0 < ?n" using assms(1) by simp
  have "0 \<le> random rt 0 * ?n" using assms(2) by simp
  then have lo: "0 \<le> \<lfloor>random rt 0 * ?n\<rfloor>" by simp
  have "random rt 0 * ?n < ?n" using assms(3) n by simp
  then have hi: "\<lfloor>random rt 0 * ?n\<rfloor> < int (length (nodes (params ps)))"
    by (simp add: floor_less_iff)
  show ?thesis
    using lo hi assms(4) by (simp add: handleLiveEvent_def elementAt_def Let_def)
qed


lemma nodes_default_nonempty: "nodes (walletToParams mh rt (js ''default_kira_seed'')) \<noteq> []"
  using length_nodes[of mh rt "js ''default_kira_seed''"] nodeCount_default[of mh rt] by auto

text \<open>
  Claim C1 fails on the code. The simulation is built for the default seed on a canvas
  of 800 by 600, where \<^verbatim>\<open>update\<close> succeeds; then a \<open>mint\<close> effect is applied, which
  succeeds and adds one particle; the next \<^verbatim>\<open>update\<close> throws a \<open>TypeError\<close>, since
  the new particle has no \<^verbatim>\<open>homeNode\<close> and \<^verbatim>\<open>this.scaledNodes[undefined].sx\<close> is read.
\<close>

theorem update_after_mint_throws:
  "\<exists>ps0 ps1.
     newParticleSystem rt0 canvas0 (walletToParams roundedHypot rt0 (js ''default_kira_seed'')) = Inr ps0 \<and>
     (\<exists>ps. update rt0 ps0 = Inr ps) \<and>
     handleLiveEvent rt0 (handleSolanaEvent mintEvent) ps0 = Inr ps1 \<and>
     length (particles ps1) = length (particles ps0) + 1 \<and>
     update rt0 ps1 = Inl TypeError"
proof -
  let ?prm = "walletToParams roundedHypot rt0 (js ''default_kira_seed'')"
  obtain ps0 where ps0: "newParticleSystem rt0 canvas0 ?prm = Inr ps0" "params ps0 = ?prm"
    "\<forall>p \<in> set (particles ps0). \<exists>h. homeNode p = Some h \<and> h < length (scaledNodes ps0)"
    using newParticleSystem_ok[OF nodes_default_nonempty[of roundedHypot rt0], of rt0 canvas0] by blast
  have before: "\<exists>ps. update rt0 ps0 = Inr ps"
    using ps0(3) by (rule update_ok)
  have ne: "nodes (params ps0) \<noteq> []"
    using nodes_default_nonempty[of roundedHypot rt0] by (simp add: ps0(2))
  have r: "0 \<le> random rt0 0" "random rt0 0 < 1"
    by (simp_all add: rt0_def)
  have m: "type (handleSolanaEvent mintEvent) = MINT"
    by (simp add: handleSolanaEvent_def mintEvent_def)
  obtain ps1 p where ps1: "handleLiveEvent rt0 (handleSolanaEvent mintEvent) ps0 = Inr ps1"
    "particles ps1 = particles ps0 @ [p]" "homeNode p = None"
    using handleLiveEvent_mint[OF ne r m] by blast
  have "\<exists>q \<in> set (particles ps1). homeNode q = None"
    using ps1(2,3) by auto
  then have after: "update rt0 ps1 = Inl TypeError"
    by (rule update_homeless)
  show ?thesis
    using ps0(1) before ps1(1,2) after by auto
qed

end
